theory Spec2Isabelle
  imports Main "HOL-Library.AList" "HOL-Library.Sublist"
begin

section \<open>The action handlers of ckanext-dalrrd-emc-dcpr (logic/action/emc.py)\<close>

text \<open>
  The module is a thin layer over a host platform (CKAN): every handler authorises the
  caller and then calls host primitives. The embedding keeps the handlers as they are
  written and takes the host as a parameter: a record of functions over a host state
  \<open>'s\<close>, each returning either an exception or a value together with the next state.
  Every call to the host is also recorded, with its arguments and its response, so that
  "which host calls were made, in which order" is a value a theorem can talk about.

  The host receives the caller's \<open>context\<close> and \<open>data_dict\<close> as values: the
  embedding assumes that a host call does not mutate the dictionaries it is handed.
\<close>

subsection \<open>Exceptions\<close>

datatype error =
    NotAuthorized
  | ValidationError string
  | ObjectNotFound
  | KeyError string
  | AttributeError string
  | DatabaseError
  | DistributionNotFound
  | IndexError
  | HostError string

subsection \<open>Data\<close>

text \<open>
  \<open>data_dict\<close>: the keys the handlers read, each absent (\<open>None\<close>) or present with a
  value of the type section 6 of the specification gives it.
\<close>

record data_dict =
  pkg_id :: "string option"
  include_private :: "bool option"
  limit :: "int option"
  offset :: "int option"

text \<open>
  The two tables \<open>list_featured_datasets\<close> reads through \<open>context["model"]\<close>, with the
  columns the query names: \<open>package.name\<close>, \<open>package.state\<close>, \<open>package.private\<close>,
  \<open>package_extra.featured\<close>, and the foreign key \<open>package_extra.package_id\<close> to
  \<open>package.id\<close> on which SQLAlchemy joins the two tables.
\<close>

record package_row =
  row_id :: string
  name :: string
  state :: string
  private_flag :: bool

record package_extra_row =
  package_id :: string
  featured :: string

record db_model =
  package_table :: "package_row list"
  package_extra_table :: "package_extra_row list"

text \<open>
  \<open>context\<close>: the keys the handlers read. \<open>user\<close> may be absent (\<open>None\<close>: a call
  outside a web request); \<open>model\<close> is always there, since the host's action dispatch
  and its access check both install it before a handler reads it.
\<close>

record action_context =
  user :: "string option"
  model :: db_model

text \<open>A validator is a function object: its identity and its \<open>__name__\<close>.\<close>

datatype validator = Validator (ident: nat) (vname: string)

type_synonym schema = "(string \<times> validator list) list"

type_synonym dataset = "(string \<times> string) list"

type_synonym activity = "(string \<times> string) list"

record userobj =
  userobj_id :: string

record distribution =
  version :: string

text \<open>
  \<open>DatasetManagementActivityType\<close> is declared in the package's \<open>constants\<close> module;
  the handlers use its two members and read \<open>.value\<close>, which the host record below takes
  as the parameter \<open>type_value\<close>.
\<close>

datatype DatasetManagementActivityType = REQUEST_MAINTENANCE | REQUEST_PUBLICATION

text \<open>
  The job handed to the queue is a reference to a function of the package's \<open>jobs\<close>
  module; only the reference is passed, the function is never called here.
\<close>

datatype job = notify_org_admins_of_dataset_management_request

text \<open>The keyword arguments of the host actions the handlers call.\<close>

record activity_context =
  ignore_auth :: bool
  schema :: schema

record activity_data =
  user_id :: string
  object_id :: string
  activity_type :: string
  data :: "(string \<times> dataset) list"

record user_patch_data =
  patch_id :: string
  activity_streams_email_notifications :: bool

subsection \<open>The query \<open>list_featured_datasets\<close> builds\<close>

datatype column = package_name | package_state | package_private | package_extra_featured

datatype sql_value = SqlStr string | SqlBool bool

datatype clause = Eq column sql_value

datatype from_clause = package_join_package_extra

record select_query =
  columns :: "column list"
  select_from :: from_clause
  whereclause :: "clause list"
  limit_clause :: int
  offset_clause :: int

type_synonym row = "sql_value list"

subsection \<open>Host calls\<close>

datatype event =
    CheckAccess string action_context "data_dict option" "error + unit"
  | Execute select_query "error + row list"
  | DefaultCreateActivitySchema "error + schema"
  | GetValidator string "error + validator"
  | PackageShow string "error + dataset"
  | ActivityCreate activity_context activity_data "error + activity"
  | EmcUserPatch user_patch_data "error + unit"
  | FollowDataset string "error + unit"
  | EnqueueJob job "string list" "error + unit"

record 's host =
  check_access :: "string \<Rightarrow> action_context \<Rightarrow> data_dict option \<Rightarrow> 's \<Rightarrow> (error + unit) \<times> 's"
  default_create_activity_schema :: "'s \<Rightarrow> (error + schema) \<times> 's"
  get_validator :: "string \<Rightarrow> 's \<Rightarrow> (error + validator) \<times> 's"
  package_show :: "string \<Rightarrow> 's \<Rightarrow> (error + dataset) \<times> 's"
  activity_create :: "activity_context \<Rightarrow> activity_data \<Rightarrow> 's \<Rightarrow> (error + activity) \<times> 's"
  emc_user_patch :: "user_patch_data \<Rightarrow> 's \<Rightarrow> (error + unit) \<times> 's"
  follow_dataset :: "string \<Rightarrow> 's \<Rightarrow> (error + unit) \<times> 's"
  enqueue_job :: "job \<Rightarrow> string list \<Rightarrow> 's \<Rightarrow> (error + unit) \<times> 's"
  g_userobj :: "'s \<Rightarrow> userobj option"
  getenv :: "string \<Rightarrow> string option"
  require :: "string \<Rightarrow> error + distribution list"
  type_value :: "DatasetManagementActivityType \<Rightarrow> string"

text \<open>
  A handler maps a host state to its outcome: the exception or the returned value, the
  host state it leaves, and the host calls it made, in order.
\<close>

type_synonym ('s, 'a) outcome = "(error + 'a) \<times> 's \<times> event list"

definition return :: "'a \<Rightarrow> 's \<Rightarrow> ('s, 'a) outcome" where
  "return x s = (Inr x, s, [])"

definition raise :: "error \<Rightarrow> 's \<Rightarrow> ('s, 'a) outcome" where
  "raise e s = (Inl e, s, [])"

text \<open>Sequencing: an exception of the first part ends the handler.\<close>

definition and_then ::
  "('s \<Rightarrow> ('s, 'a) outcome) \<Rightarrow> ('a \<Rightarrow> 's \<Rightarrow> ('s, 'b) outcome) \<Rightarrow> 's \<Rightarrow> ('s, 'b) outcome" where
  "and_then m f s =
     (case m s of
        (Inl e, s1, evs1) \<Rightarrow> (Inl e, s1, evs1)
      | (Inr x, s1, evs1) \<Rightarrow> (case f x s1 of (r, s2, evs2) \<Rightarrow> (r, s2, evs1 @ evs2)))"

definition host_call ::
  "((error + 'a) \<Rightarrow> event) \<Rightarrow> ('s \<Rightarrow> (error + 'a) \<times> 's) \<Rightarrow> 's \<Rightarrow> ('s, 'a) outcome" where
  "host_call ev f s = (case f s of (r, s1) \<Rightarrow> (r, s1, [ev r]))"

text \<open>
  Subscripting a dictionary: \<open>d[k]\<close> raises \<open>KeyError\<close> on an absent key;
  \<open>d.get(k, dflt)\<close> gives the default there.
\<close>

definition dict_get :: "'a option \<Rightarrow> 'a \<Rightarrow> 'a" where
  "dict_get v dflt = (case v of None \<Rightarrow> dflt | Some x \<Rightarrow> x)"

definition subscript :: "string \<Rightarrow> 'a option \<Rightarrow> 's \<Rightarrow> ('s, 'a) outcome" where
  "subscript k v = (case v of None \<Rightarrow> raise (KeyError k) | Some x \<Rightarrow> return x)"

subsection \<open>\<open>show_version\<close>\<close>

text \<open>
  \<open>pkg_resources.require(...)\<close> returns the list of distributions or raises; \<open>[0]\<close>
  raises \<open>IndexError\<close> on an empty list.
\<close>

definition show_version ::
  "'s host \<Rightarrow> action_context option \<Rightarrow> data_dict option \<Rightarrow> 's \<Rightarrow> ('s, (string \<times> string option) list) outcome" where
  "show_version h context data_dict =
     (case require h ''ckanext-dalrrd-emc-dcpr'' of
        Inl e \<Rightarrow> raise e
      | Inr [] \<Rightarrow> raise IndexError
      | Inr (d # ds) \<Rightarrow>
          return [(''version'', Some (version d)), (''git_sha'', getenv h ''GIT_COMMIT'')])"

subsection \<open>\<open>list_featured_datasets\<close>\<close>

text \<open>
  Executing a query: the joined rows in table order, those satisfying every clause of
  the conjunction, \<open>OFFSET\<close> rows skipped and at most \<open>LIMIT\<close> rows kept, each projected
  to the selected columns. PostgreSQL, the database of the host, rejects a negative
  \<open>LIMIT\<close> or \<open>OFFSET\<close>.
\<close>

definition joined :: "db_model \<Rightarrow> (package_row \<times> package_extra_row) list" where
  "joined m =
     concat (map (\<lambda>p. map (\<lambda>e. (p, e)) (filter (\<lambda>e. package_id e = row_id p) (package_extra_table m)))
                 (package_table m))"

fun column_value :: "package_row \<times> package_extra_row \<Rightarrow> column \<Rightarrow> sql_value" where
  "column_value (p, e) package_name = SqlStr (name p)"
| "column_value (p, e) package_state = SqlStr (state p)"
| "column_value (p, e) package_private = SqlBool (private_flag p)"
| "column_value (p, e) package_extra_featured = SqlStr (featured e)"

fun holds :: "package_row \<times> package_extra_row \<Rightarrow> clause \<Rightarrow> bool" where
  "holds r (Eq c v) = (column_value r c = v)"

definition execute :: "db_model \<Rightarrow> select_query \<Rightarrow> error + row list" where
  "execute m q =
     (if limit_clause q < 0 \<or> offset_clause q < 0 then Inl DatabaseError
      else Inr (take (nat (limit_clause q)) (drop (nat (offset_clause q))
             (map (\<lambda>r. map (column_value r) (columns q))
                  (filter (\<lambda>r. list_all (holds r) (whereclause q)) (joined m))))))"

definition list_featured_datasets ::
  "'s host \<Rightarrow> action_context \<Rightarrow> data_dict option \<Rightarrow> 's \<Rightarrow> ('s, row list) outcome" where
  "list_featured_datasets h context data_dict =
     and_then (host_call (CheckAccess ''emc_authorize_list_featured_datasets'' context data_dict)
                 (check_access h ''emc_authorize_list_featured_datasets'' context data_dict)) (\<lambda>_.
     let data0 = (case data_dict of
                    Some d \<Rightarrow> d
                  | None \<Rightarrow> \<lparr>pkg_id = None, include_private = None, limit = None, offset = None\<rparr>);
         include_private' = dict_get (include_private data0) False;
         limit' = dict_get (limit data0) 10;
         offset' = dict_get (offset data0) 0;
         model' = model context;
         query = \<lparr>columns = [package_name],
                  select_from = package_join_package_extra,
                  whereclause = [Eq package_extra_featured (SqlStr ''true''),
                                 Eq package_state (SqlStr ''active''),
                                 Eq package_private (SqlBool include_private')],
                  limit_clause = limit',
                  offset_clause = offset'\<rparr>
     in host_call (Execute query) (\<lambda>s. (execute model' query, s)))"

subsection \<open>The maintenance and publication requests\<close>

text \<open>
  The two loops of \<open>_create_dataset_management_activity\<close>: the first validator of the
  list whose \<open>__name__\<close> is the given one (the loop breaks there), and, when there is
  one, \<open>list.remove\<close> of it, which deletes the first element equal to it.
\<close>

fun find_named :: "string \<Rightarrow> validator list \<Rightarrow> validator option" where
  "find_named n [] = None"
| "find_named n (v # vs) = (if vname v = n then Some v else find_named n vs)"

definition remove_named :: "string \<Rightarrow> validator list \<Rightarrow> validator list" where
  "remove_named n vs = (case find_named n vs of None \<Rightarrow> vs | Some to_remove \<Rightarrow> remove1 to_remove vs)"

definition create_dataset_management_activity ::
  "'s host \<Rightarrow> string \<Rightarrow> DatasetManagementActivityType \<Rightarrow> 's \<Rightarrow> ('s, activity) outcome" where
  "create_dataset_management_activity h dataset_id activity_type' =
     and_then (host_call DefaultCreateActivitySchema (default_create_activity_schema h)) (\<lambda>activity_schema.
     and_then (subscript ''activity_type'' (map_of activity_schema ''activity_type'')) (\<lambda>activity_type_validators.
     let activity_schema1 =
           AList.update ''activity_type'' (remove_named ''activity_type_exists'' activity_type_validators)
             activity_schema
     in and_then (subscript ''object_id'' (map_of activity_schema1 ''object_id'')) (\<lambda>object_id_validators.
        let activity_schema2 =
              AList.update ''object_id'' (remove_named ''object_id_validator'' object_id_validators)
                activity_schema1
        in and_then (host_call (GetValidator ''package_id_exists'') (get_validator h ''package_id_exists''))
             (\<lambda>package_id_exists.
           let activity_schema3 =
                 AList.update ''object_id''
                   (remove_named ''object_id_validator'' object_id_validators @ [package_id_exists])
                   activity_schema2
           in and_then (host_call (PackageShow dataset_id) (package_show h dataset_id)) (\<lambda>dataset.
              and_then (\<lambda>s. (case g_userobj h s of
                                 None \<Rightarrow> raise (AttributeError ''id'') s
                               | Some u \<Rightarrow> return (userobj_id u) s)) (\<lambda>uid.
              let context' = \<lparr>ignore_auth = True, schema = activity_schema3\<rparr>;
                  data_dict' = \<lparr>user_id = uid,
                                object_id = dataset_id,
                                activity_type = type_value h activity_type',
                                data = [(''package'', dataset)]\<rparr>
              in host_call (ActivityCreate context' data_dict')
                   (activity_create h context' data_dict')))))))"

text \<open>
  \<open>_ensure_user_is_notifiable\<close>: the \<open>try\<close> around the follow call catches
  \<open>ValidationError\<close>, whatever it carries, and nothing else.
\<close>

definition ensure_user_is_notifiable :: "'s host \<Rightarrow> string \<Rightarrow> string \<Rightarrow> 's \<Rightarrow> ('s, unit) outcome" where
  "ensure_user_is_notifiable h user_id' dataset_id =
     and_then (host_call (EmcUserPatch \<lparr>patch_id = user_id', activity_streams_email_notifications = True\<rparr>)
                 (emc_user_patch h \<lparr>patch_id = user_id', activity_streams_email_notifications = True\<rparr>)) (\<lambda>_.
     (\<lambda>s. case host_call (FollowDataset dataset_id) (follow_dataset h dataset_id) s of
             (Inl (ValidationError msg), s1, evs) \<Rightarrow> (Inr (), s1, evs)
           | (r, s1, evs) \<Rightarrow> (r, s1, evs)))"

definition request_dataset_maintenance :: "'s host \<Rightarrow> action_context \<Rightarrow> data_dict \<Rightarrow> 's \<Rightarrow> ('s, unit) outcome" where
  "request_dataset_maintenance h context data_dict =
     and_then (host_call (CheckAccess ''emc_request_dataset_maintenance'' context (Some data_dict))
                 (check_access h ''emc_request_dataset_maintenance'' context (Some data_dict))) (\<lambda>_.
     and_then (subscript ''pkg_id'' (pkg_id data_dict)) (\<lambda>pkg.
     and_then (create_dataset_management_activity h pkg REQUEST_MAINTENANCE) (\<lambda>activity.
     and_then (subscript ''user'' (user context)) (\<lambda>user'.
     and_then (ensure_user_is_notifiable h user' pkg) (\<lambda>_.
     and_then (subscript ''id'' (map_of activity ''id'')) (\<lambda>activity_id.
     host_call (EnqueueJob notify_org_admins_of_dataset_management_request [activity_id])
       (enqueue_job h notify_org_admins_of_dataset_management_request [activity_id])))))))"

definition request_dataset_publication :: "'s host \<Rightarrow> action_context \<Rightarrow> data_dict \<Rightarrow> 's \<Rightarrow> ('s, unit) outcome" where
  "request_dataset_publication h context data_dict =
     and_then (host_call (CheckAccess ''emc_request_dataset_publication'' context (Some data_dict))
                 (check_access h ''emc_request_dataset_publication'' context (Some data_dict))) (\<lambda>_.
     and_then (subscript ''pkg_id'' (pkg_id data_dict)) (\<lambda>pkg.
     and_then (create_dataset_management_activity h pkg REQUEST_PUBLICATION) (\<lambda>activity.
     and_then (subscript ''user'' (user context)) (\<lambda>user'.
     and_then (ensure_user_is_notifiable h user' pkg) (\<lambda>_.
     and_then (subscript ''id'' (map_of activity ''id'')) (\<lambda>activity_id.
     host_call (EnqueueJob notify_org_admins_of_dataset_management_request [activity_id])
       (enqueue_job h notify_org_admins_of_dataset_management_request [activity_id])))))))"

subsection \<open>The two request handlers, side by side\<close>

text \<open>
  Vocabulary for the theorems: the two handlers, the name of the access check each
  makes and the activity type each records.
\<close>

datatype operation = Maintenance | Publication

fun handler :: "operation \<Rightarrow> 's host \<Rightarrow> action_context \<Rightarrow> data_dict \<Rightarrow> 's \<Rightarrow> ('s, unit) outcome" where
  "handler Maintenance = request_dataset_maintenance"
| "handler Publication = request_dataset_publication"

fun authorization_name :: "operation \<Rightarrow> string" where
  "authorization_name Maintenance = ''emc_request_dataset_maintenance''"
| "authorization_name Publication = ''emc_request_dataset_publication''"

fun recorded_type :: "operation \<Rightarrow> DatasetManagementActivityType" where
  "recorded_type Maintenance = REQUEST_MAINTENANCE"
| "recorded_type Publication = REQUEST_PUBLICATION"

text \<open>
  The specification's reading of section 4.3: one procedure of four steps after the
  access check, whose only parameters are the name of the check and the recorded type.
\<close>

definition request_dataset_management ::
  "string \<Rightarrow> DatasetManagementActivityType \<Rightarrow> 's host \<Rightarrow> action_context \<Rightarrow> data_dict \<Rightarrow> 's
     \<Rightarrow> ('s, unit) outcome" where
  "request_dataset_management auth_name recorded h context data_dict =
     and_then (host_call (CheckAccess auth_name context (Some data_dict))
                 (check_access h auth_name context (Some data_dict))) (\<lambda>_.
     and_then (subscript ''pkg_id'' (pkg_id data_dict)) (\<lambda>pkg.
     and_then (create_dataset_management_activity h pkg recorded) (\<lambda>activity.
     and_then (subscript ''user'' (user context)) (\<lambda>user'.
     and_then (ensure_user_is_notifiable h user' pkg) (\<lambda>_.
     and_then (subscript ''id'' (map_of activity ''id'')) (\<lambda>activity_id.
     host_call (EnqueueJob notify_org_admins_of_dataset_management_request [activity_id])
       (enqueue_job h notify_org_admins_of_dataset_management_request [activity_id])))))))"

text \<open>Which host primitive an event is a call of, and the exception it raised, if any.\<close>

datatype call_kind =
    KCheckAccess | KExecute | KDefaultCreateActivitySchema | KGetValidator | KPackageShow
  | KActivityCreate | KEmcUserPatch | KFollowDataset | KEnqueueJob

fun kind :: "event \<Rightarrow> call_kind" where
  "kind (CheckAccess n c d r) = KCheckAccess"
| "kind (Execute q r) = KExecute"
| "kind (DefaultCreateActivitySchema r) = KDefaultCreateActivitySchema"
| "kind (GetValidator n r) = KGetValidator"
| "kind (PackageShow i r) = KPackageShow"
| "kind (ActivityCreate c d r) = KActivityCreate"
| "kind (EmcUserPatch d r) = KEmcUserPatch"
| "kind (FollowDataset i r) = KFollowDataset"
| "kind (EnqueueJob j a r) = KEnqueueJob"

definition failure :: "error + 'a \<Rightarrow> error option" where
  "failure r = (case r of Inl e \<Rightarrow> Some e | Inr x \<Rightarrow> None)"

fun raised :: "event \<Rightarrow> error option" where
  "raised (CheckAccess n c d r) = failure r"
| "raised (Execute q r) = failure r"
| "raised (DefaultCreateActivitySchema r) = failure r"
| "raised (GetValidator n r) = failure r"
| "raised (PackageShow i r) = failure r"
| "raised (ActivityCreate c d r) = failure r"
| "raised (EmcUserPatch d r) = failure r"
| "raised (FollowDataset i r) = failure r"
| "raised (EnqueueJob j a r) = failure r"


subsection \<open>A sample host\<close>

text \<open>
  A small host in the manner of CKAN, to run the handlers on: the access checks the
  caller passes, the datasets, the user of the web request (\<open>toolkit.g.userobj\<close>), and
  what the host actions have recorded so far. Its \<open>activity_create\<close> refuses a caller
  without \<open>ignore_auth\<close>, and applies the two validators the handlers care about when the
  schema it is given still carries them; its \<open>follow_dataset\<close> subscribes the user of
  the web request, and reports a second subscription as a validation failure.
\<close>

record sample_state =
  permitted :: "string list"
  datasets :: "(string \<times> dataset) list"
  request_user :: "userobj option"
  activities :: "activity_data list"
  notifiable :: "string list"
  followers :: "(string \<times> string) list"
  queue :: "(job \<times> string list) list"

definition sample_schema :: schema where
  "sample_schema =
     [(''id'', [Validator 0 ''ignore'']),
      (''timestamp'', [Validator 0 ''ignore'']),
      (''user_id'', [Validator 1 ''not_missing'', Validator 2 ''not_empty'', Validator 3 ''unicode_safe'',
                     Validator 4 ''convert_user_name_or_id_to_id'']),
      (''object_id'', [Validator 1 ''not_missing'', Validator 2 ''not_empty'', Validator 3 ''unicode_safe'',
                       Validator 5 ''object_id_validator'']),
      (''revision_id'', [Validator 0 ''ignore'']),
      (''activity_type'', [Validator 1 ''not_missing'', Validator 2 ''not_empty'', Validator 3 ''unicode_safe'',
                           Validator 6 ''activity_type_exists'']),
      (''data'', [Validator 7 ''ignore_empty'', Validator 8 ''ignore_missing''])]"

definition names_at :: "schema \<Rightarrow> string \<Rightarrow> string list" where
  "names_at sch k = (case map_of sch k of None \<Rightarrow> [] | Some vs \<Rightarrow> map vname vs)"

definition sample_activity_create ::
  "activity_context \<Rightarrow> activity_data \<Rightarrow> sample_state \<Rightarrow> (error + activity) \<times> sample_state" where
  "sample_activity_create c d s =
     (if \<not> ignore_auth c then (Inl NotAuthorized, s)
      else if ''activity_type_exists'' \<in> set (names_at (schema c) ''activity_type'')
        then (Inl (ValidationError ''Not found: Activity type''), s)
      else if ''object_id_validator'' \<in> set (names_at (schema c) ''object_id'')
        then (Inl (ValidationError ''Not found: object''), s)
      else if ''package_id_exists'' \<in> set (names_at (schema c) ''object_id'')
              \<and> map_of (datasets s) (object_id d) = None
        then (Inl (ValidationError ''Not found: Dataset''), s)
      else (Inr [(''id'', replicate (Suc (length (activities s))) (CHR ''a'')),
                 (''user_id'', user_id d),
                 (''object_id'', object_id d),
                 (''activity_type'', activity_type d)],
            s\<lparr>activities := activities s @ [d]\<rparr>))"

definition sample_follow_dataset :: "string \<Rightarrow> sample_state \<Rightarrow> (error + unit) \<times> sample_state" where
  "sample_follow_dataset i s =
     (case request_user s of
        None \<Rightarrow> (Inl NotAuthorized, s)
      | Some u \<Rightarrow>
          if map_of (datasets s) i = None then (Inl (ValidationError ''Not found: Dataset''), s)
          else if (userobj_id u, i) \<in> set (followers s)
            then (Inl (ValidationError ''You are already following this dataset''), s)
          else (Inr (), s\<lparr>followers := followers s @ [(userobj_id u, i)]\<rparr>))"

definition sample_type_value :: "DatasetManagementActivityType \<Rightarrow> string" where
  "sample_type_value t =
     (case t of REQUEST_MAINTENANCE \<Rightarrow> ''requested dataset maintenance''
              | REQUEST_PUBLICATION \<Rightarrow> ''requested dataset publication'')"

definition sample_host :: "sample_state host" where
  "sample_host =
     \<lparr>check_access = (\<lambda>n c d s. (if n \<in> set (permitted s) then Inr () else Inl NotAuthorized, s)),
      default_create_activity_schema = (\<lambda>s. (Inr sample_schema, s)),
      get_validator = (\<lambda>n s. (if n = ''package_id_exists'' then Inr (Validator 9 n)
                               else Inl (HostError ''UnknownValidator''), s)),
      package_show = (\<lambda>i s. (case map_of (datasets s) i of
                                None \<Rightarrow> Inl ObjectNotFound
                              | Some d \<Rightarrow> Inr d, s)),
      activity_create = sample_activity_create,
      emc_user_patch = (\<lambda>d s. (Inr (),
                         if activity_streams_email_notifications d
                         then s\<lparr>notifiable := notifiable s @ [patch_id d]\<rparr> else s)),
      follow_dataset = sample_follow_dataset,
      enqueue_job = (\<lambda>j a s. (Inr (), s\<lparr>queue := queue s @ [(j, a)]\<rparr>)),
      g_userobj = request_user,
      getenv = (\<lambda>k. None),
      require = (\<lambda>n. if n = ''ckanext-dalrrd-emc-dcpr'' then Inr [\<lparr>version = ''0.1.0''\<rparr>]
                       else Inl DistributionNotFound),
      type_value = sample_type_value\<rparr>"

text \<open>
  A host whose \<open>follow_dataset\<close> fails validation for a reason of its own (the dataset
  went away after the activity was written), nobody following anything.
\<close>

definition racing_host :: "sample_state host" where
  "racing_host =
     sample_host\<lparr>follow_dataset := (\<lambda>i s. (Inl (ValidationError ''Not found: Dataset''), s))\<rparr>"

definition sample_dataset :: dataset where
  "sample_dataset = [(''id'', ''ds1''), (''name'', ''rivers''), (''title'', ''Rivers'')]"

definition sample_model :: db_model where
  "sample_model =
     \<lparr>package_table =
        [\<lparr>row_id = ''ds1'', name = ''rivers'', state = ''active'', private_flag = False\<rparr>,
         \<lparr>row_id = ''ds2'', name = ''roads'', state = ''active'', private_flag = True\<rparr>,
         \<lparr>row_id = ''ds3'', name = ''dams'', state = ''deleted'', private_flag = False\<rparr>,
         \<lparr>row_id = ''ds4'', name = ''parks'', state = ''active'', private_flag = False\<rparr>,
         \<lparr>row_id = ''ds5'', name = ''wards'', state = ''active'', private_flag = False\<rparr>],
      package_extra_table =
        [\<lparr>package_id = ''ds1'', featured = ''true''\<rparr>,
         \<lparr>package_id = ''ds2'', featured = ''true''\<rparr>,
         \<lparr>package_id = ''ds3'', featured = ''true''\<rparr>,
         \<lparr>package_id = ''ds4'', featured = ''false''\<rparr>,
         \<lparr>package_id = ''ds5'', featured = ''true''\<rparr>]\<rparr>"

definition alice_context :: action_context where
  "alice_context = \<lparr>user = Some ''alice'', model = sample_model\<rparr>"

definition request_for_ds1 :: data_dict where
  "request_for_ds1 = \<lparr>pkg_id = Some ''ds1'', include_private = None, limit = None, offset = None\<rparr>"

definition sample_start :: "string list \<Rightarrow> string \<Rightarrow> sample_state" where
  "sample_start perms uid =
     \<lparr>permitted = perms,
      datasets = [(''ds1'', sample_dataset)],
      request_user = Some \<lparr>userobj_id = uid\<rparr>,
      activities = [],
      notifiable = [],
      followers = [],
      queue = []\<rparr>"

definition bare_schema :: schema where
  "bare_schema =
     [(''object_id'', [Validator 1 ''not_missing'']),
      (''activity_type'', [Validator 1 ''not_missing'', Validator 3 ''unicode_safe''])]"

definition bare_host :: "sample_state host" where
  "bare_host = sample_host\<lparr>default_create_activity_schema := (\<lambda>s. (Inr bare_schema, s))\<rparr>"

definition patched_sample_schema :: schema where
  "patched_sample_schema =
     [(''id'', [Validator 0 ''ignore'']),
      (''timestamp'', [Validator 0 ''ignore'']),
      (''user_id'', [Validator 1 ''not_missing'', Validator 2 ''not_empty'', Validator 3 ''unicode_safe'',
                     Validator 4 ''convert_user_name_or_id_to_id'']),
      (''object_id'', [Validator 1 ''not_missing'', Validator 2 ''not_empty'', Validator 3 ''unicode_safe'',
                       Validator 9 ''package_id_exists'']),
      (''revision_id'', [Validator 0 ''ignore'']),
      (''activity_type'', [Validator 1 ''not_missing'', Validator 2 ''not_empty'', Validator 3 ''unicode_safe'']),
      (''data'', [Validator 7 ''ignore_empty'', Validator 8 ''ignore_missing''])]"

definition sample_activity_data :: activity_data where
  "sample_activity_data =
     \<lparr>user_id = ''u-bob'', object_id = ''ds1'', activity_type = ''requested dataset maintenance'',
      data = [(''package'', sample_dataset)]\<rparr>"

definition may_request :: sample_state where
  "may_request = sample_start [''emc_request_dataset_maintenance''] ''u-bob''"

definition first_request :: "(sample_state, unit) outcome" where
  "first_request = request_dataset_maintenance sample_host alice_context request_for_ds1 may_request"

definition second_request :: "(sample_state, unit) outcome" where
  "second_request =
     request_dataset_maintenance sample_host alice_context request_for_ds1 (fst (snd first_request))"

definition racing_request :: "(sample_state, unit) outcome" where
  "racing_request = request_dataset_maintenance racing_host alice_context request_for_ds1 may_request"





definition rejecting_host :: "sample_state host" where
  "rejecting_host = sample_host\<lparr>activity_create := (\<lambda>c d s. (Inl (ValidationError ''Missing value''), s))\<rparr>"

definition rejected_request :: "(sample_state, unit) outcome" where
  "rejected_request = request_dataset_maintenance rejecting_host alice_context request_for_ds1 may_request"

definition sample_activity_context :: activity_context where
  "sample_activity_context = \<lparr>ignore_auth = True, schema = patched_sample_schema\<rparr>"

definition sample_activity :: activity where
  "sample_activity =
     [(''id'', ''a''), (''user_id'', ''u-bob''), (''object_id'', ''ds1''),
      (''activity_type'', ''requested dataset maintenance'')]"

definition bare_activity_context :: activity_context where
  "bare_activity_context =
     \<lparr>ignore_auth = True,
      schema = [(''object_id'', [Validator 1 ''not_missing'', Validator 9 ''package_id_exists'']),
                (''activity_type'', [Validator 1 ''not_missing'', Validator 3 ''unicode_safe''])]\<rparr>"

definition may_list :: sample_state where
  "may_list = sample_start [''emc_authorize_list_featured_datasets''] ''u-bob''"

definition second_page :: data_dict where
  "second_page = \<lparr>pkg_id = None, include_private = Some False, limit = Some 1, offset = Some 1\<rparr>"

definition uninstalled_host :: "sample_state host" where
  "uninstalled_host = sample_host\<lparr>require := (\<lambda>n. Inl DistributionNotFound)\<rparr>"

definition negative_page :: data_dict where
  "negative_page = \<lparr>pkg_id = None, include_private = None, limit = Some (- 1), offset = None\<rparr>"

section \<open>Properties\<close>

subsection \<open>Runs of the procedures\<close>

text \<open>
  What a run of each procedure looks like: which host calls it makes, what it hands
  them, and how a failure of one of them ends it. The theorems below are read off these.
\<close>

lemmas run_defs = and_then_def host_call_def subscript_def return_def raise_def

lemma handler_generic: "handler op = request_dataset_management (authorization_name op) (recorded_type op)"
  by (cases op) (auto simp: request_dataset_management_def request_dataset_maintenance_def request_dataset_publication_def fun_eq_iff)

lemma ensure_kinds:
  "ensure_user_is_notifiable h u pkg s = (r, s', evs) \<Longrightarrow> prefix (map kind evs) [KEmcUserPatch, KFollowDataset]"
  by (auto simp: ensure_user_is_notifiable_def run_defs split: prod.splits sum.splits error.splits)

lemma create_kinds:
  "create_dataset_management_activity h pkg T s = (r, s', evs) \<Longrightarrow>
   prefix (map kind evs) [KDefaultCreateActivitySchema, KGetValidator, KPackageShow, KActivityCreate]"
  by (auto simp: create_dataset_management_activity_def run_defs Let_def split: prod.splits sum.splits option.splits)

lemma create_success:
  assumes "create_dataset_management_activity h pkg T s = (Inr a, s', evs)"
  shows "\<exists>sch atv oiv v ds u s1 s2 s3 C D.
           default_create_activity_schema h s = (Inr sch, s1) \<and>
           map_of sch ''activity_type'' = Some atv \<and> map_of sch ''object_id'' = Some oiv \<and>
           get_validator h ''package_id_exists'' s1 = (Inr v, s2) \<and>
           package_show h pkg s2 = (Inr ds, s3) \<and>
           g_userobj h s3 = Some u \<and>
           C = \<lparr>ignore_auth = True,
                schema = AList.update ''object_id'' (remove_named ''object_id_validator'' oiv @ [v])
                           (AList.update ''activity_type'' (remove_named ''activity_type_exists'' atv) sch)\<rparr> \<and>
           D = \<lparr>user_id = userobj_id u, object_id = pkg, activity_type = type_value h T,
                data = [(''package'', ds)]\<rparr> \<and>
           activity_create h C D s3 = (Inr a, s') \<and>
           evs = [DefaultCreateActivitySchema (Inr sch), GetValidator ''package_id_exists'' (Inr v),
                  PackageShow pkg (Inr ds), ActivityCreate C D (Inr a)]"
  using assms
  by (auto simp: create_dataset_management_activity_def run_defs Let_def update_conv
        split: prod.splits sum.splits option.splits)

lemma create_raised:
  "create_dataset_management_activity h pkg T s = (r, s', evs) \<Longrightarrow> ev \<in> set evs \<Longrightarrow> raised ev = Some e \<Longrightarrow> r = Inl e"
  by (auto simp: create_dataset_management_activity_def run_defs Let_def failure_def split: prod.splits sum.splits option.splits)

lemma create_activity_event:
  "create_dataset_management_activity h pkg T s = (r, s', evs) \<Longrightarrow> ActivityCreate c d ra \<in> set evs \<Longrightarrow>
   ignore_auth c \<and> object_id d = pkg \<and> activity_type d = type_value h T \<and> ra = r \<and>
   (\<exists>s3 u. activity_create h c d s3 = (ra, s') \<and> g_userobj h s3 = Some u \<and> user_id d = userobj_id u)"
  by (auto simp: create_dataset_management_activity_def run_defs Let_def split: prod.splits sum.splits option.splits)

lemma ensure_raised:
  "ensure_user_is_notifiable h u pkg s = (r, s', evs) \<Longrightarrow> ev \<in> set evs \<Longrightarrow> raised ev = Some e \<Longrightarrow>
   r = Inl e \<or> (kind ev = KFollowDataset \<and> (\<exists>m. e = ValidationError m) \<and> r = Inr ())"
  by (auto simp: ensure_user_is_notifiable_def run_defs failure_def split: prod.splits sum.splits error.splits)

lemma ensure_events:
  "ensure_user_is_notifiable h u pkg s = (r, s', evs) \<Longrightarrow>
   (\<forall>p rp. EmcUserPatch p rp \<in> set evs \<longrightarrow> p = \<lparr>patch_id = u, activity_streams_email_notifications = True\<rparr>) \<and>
   (\<forall>i rf. FollowDataset i rf \<in> set evs \<longrightarrow> i = pkg)"
  by (auto simp: ensure_user_is_notifiable_def run_defs split: prod.splits sum.splits error.splits)

lemma ensure_success:
  assumes "ensure_user_is_notifiable h u pkg s = (Inr x, s', evs)"
  shows "\<exists>s1 rf. emc_user_patch h \<lparr>patch_id = u, activity_streams_email_notifications = True\<rparr> s = (Inr (), s1) \<and>
           follow_dataset h pkg s1 = (rf, s') \<and> (rf = Inr () \<or> (\<exists>m. rf = Inl (ValidationError m))) \<and>
           evs = [EmcUserPatch \<lparr>patch_id = u, activity_streams_email_notifications = True\<rparr> (Inr ()),
                  FollowDataset pkg rf]"
  using assms
  by (auto simp: ensure_user_is_notifiable_def run_defs split: prod.splits sum.splits error.splits)

lemma request_run:
  assumes "request_dataset_management nm T h ctx dd s = (r, s', evs)"
  shows "(\<exists>e. check_access h nm ctx (Some dd) s = (Inl e, s') \<and> r = Inl e \<and>
              evs = [CheckAccess nm ctx (Some dd) (Inl e)])
    \<or> (\<exists>s1. check_access h nm ctx (Some dd) s = (Inr (), s1) \<and>
         ((pkg_id dd = None \<and> r = Inl (KeyError ''pkg_id'') \<and> s' = s1 \<and>
             evs = [CheckAccess nm ctx (Some dd) (Inr ())])
        \<or> (\<exists>pkg. pkg_id dd = Some pkg \<and>
             ((\<exists>e evs2. create_dataset_management_activity h pkg T s1 = (Inl e, s', evs2) \<and> r = Inl e \<and>
                  evs = CheckAccess nm ctx (Some dd) (Inr ()) # evs2)
            \<or> (\<exists>a s2 evs2. create_dataset_management_activity h pkg T s1 = (Inr a, s2, evs2) \<and>
                 ((user ctx = None \<and> r = Inl (KeyError ''user'') \<and> s' = s2 \<and>
                     evs = CheckAccess nm ctx (Some dd) (Inr ()) # evs2)
                \<or> (\<exists>u. user ctx = Some u \<and>
                     ((\<exists>e evs3. ensure_user_is_notifiable h u pkg s2 = (Inl e, s', evs3) \<and> r = Inl e \<and>
                          evs = CheckAccess nm ctx (Some dd) (Inr ()) # evs2 @ evs3)
                    \<or> (\<exists>s3 evs3. ensure_user_is_notifiable h u pkg s2 = (Inr (), s3, evs3) \<and>
                         ((map_of a ''id'' = None \<and> r = Inl (KeyError ''id'') \<and> s' = s3 \<and>
                             evs = CheckAccess nm ctx (Some dd) (Inr ()) # evs2 @ evs3)
                        \<or> (\<exists>aid. map_of a ''id'' = Some aid \<and>
                             enqueue_job h notify_org_admins_of_dataset_management_request [aid] s3 = (r, s') \<and>
                             evs = CheckAccess nm ctx (Some dd) (Inr ()) # evs2 @ evs3 @
                                   [EnqueueJob notify_org_admins_of_dataset_management_request [aid] r])))))))))))"
  using assms
  by (auto simp: request_dataset_management_def run_defs split: prod.splits sum.splits option.splits)



lemma create_only:
  "create_dataset_management_activity h pkg T s = (r, s', evs) \<Longrightarrow> ev \<in> set evs \<Longrightarrow>
   kind ev \<in> {KDefaultCreateActivitySchema, KGetValidator, KPackageShow, KActivityCreate}"
  by (drule create_kinds, drule set_mono_prefix) auto

lemma ensure_only:
  "ensure_user_is_notifiable h u pkg s = (r, s', evs) \<Longrightarrow> ev \<in> set evs \<Longrightarrow>
   kind ev \<in> {KEmcUserPatch, KFollowDataset}"
  by (drule ensure_kinds, drule set_mono_prefix) auto






lemma request_success:
  assumes "request_dataset_management nm T h ctx dd s = (Inr x, s', evs)"
  shows "\<exists>pkg cu sch v ds C D a aid rf.
      pkg_id dd = Some pkg \<and> user ctx = Some cu \<and> map_of a ''id'' = Some aid \<and>
      object_id D = pkg \<and> activity_type D = type_value h T \<and> data D = [(''package'', ds)] \<and>
      ignore_auth C \<and>
      evs = [CheckAccess nm ctx (Some dd) (Inr ()),
             DefaultCreateActivitySchema (Inr sch),
             GetValidator ''package_id_exists'' (Inr v),
             PackageShow pkg (Inr ds),
             ActivityCreate C D (Inr a),
             EmcUserPatch \<lparr>patch_id = cu, activity_streams_email_notifications = True\<rparr> (Inr ()),
             FollowDataset pkg rf,
             EnqueueJob notify_org_admins_of_dataset_management_request [aid] (Inr ())]"
  using request_run [OF assms]
  apply (elim disjE exE conjE)
        apply simp_all
  apply (drule create_success)
  apply (drule ensure_success)
  apply (elim exE conjE)
  apply simp
  done

lemma request_raised:
  assumes "request_dataset_management nm T h ctx dd s = (r, s', evs)"
      and "ev \<in> set evs" and "raised ev = Some e"
      and "\<not> (kind ev = KFollowDataset \<and> (\<exists>m. e = ValidationError m))"
  shows "r = Inl e"
  using request_run [OF assms(1)] assms(2-)
  apply (elim disjE exE conjE)
  by (auto simp: failure_def dest: create_raised ensure_raised split: sum.splits)

lemma ensure_no_activity:
  "ensure_user_is_notifiable h u pkg s = (r, s', evs) \<Longrightarrow> ActivityCreate c d ra \<notin> set evs"
  by (auto dest: ensure_only)

lemma create_no_patch_no_follow:
  "create_dataset_management_activity h pkg T s = (r, s', evs) \<Longrightarrow>
   EmcUserPatch p rp \<notin> set evs \<and> FollowDataset i rf \<notin> set evs"
  by (auto dest: create_only)

lemma request_activity_event:
  assumes "request_dataset_management nm T h ctx dd s = (r, s', evs)"
      and "ActivityCreate c d ra \<in> set evs"
  shows "ignore_auth c \<and> pkg_id dd = Some (object_id d) \<and> activity_type d = type_value h T \<and>
         (\<exists>s3 s4 u. activity_create h c d s3 = (ra, s4) \<and> g_userobj h s3 = Some u \<and> user_id d = userobj_id u)"
proof -
  from request_run [OF assms(1)] assms(2)
  obtain s1 pkg r2 s2 evs2 where pkg: "pkg_id dd = Some pkg"
    and create: "create_dataset_management_activity h pkg T s1 = (r2, s2, evs2)"
    and mem: "ActivityCreate c d ra \<in> set evs2"
    by (elim disjE exE conjE) (auto simp: ensure_no_activity)
  from create_activity_event [OF create mem] pkg show ?thesis by blast
qed

lemma ensure_patch_event:
  "ensure_user_is_notifiable h u pkg s = (r, s', evs) \<Longrightarrow> EmcUserPatch p rp \<in> set evs \<Longrightarrow>
   patch_id p = u \<and> activity_streams_email_notifications p"
  by (auto simp: ensure_user_is_notifiable_def run_defs split: prod.splits sum.splits error.splits)

lemma ensure_follow_event:
  "ensure_user_is_notifiable h u pkg s = (r, s', evs) \<Longrightarrow> FollowDataset i rf \<in> set evs \<Longrightarrow> i = pkg"
  by (auto simp: ensure_user_is_notifiable_def run_defs split: prod.splits sum.splits error.splits)

lemma ensure_swallowed:
  "ensure_user_is_notifiable h u pkg s = (r, s', evs) \<Longrightarrow>
   FollowDataset i (Inl (ValidationError m)) \<in> set evs \<Longrightarrow> r = Inr ()"
  by (auto simp: ensure_user_is_notifiable_def run_defs split: prod.splits sum.splits error.splits)

lemma create_success_event:
  "create_dataset_management_activity h pkg T s = (Inr a, s', evs) \<Longrightarrow>
   \<exists>c d. ActivityCreate c d (Inr a) \<in> set evs"
  by (drule create_success) auto

lemma request_cases [consumes 1, case_names denied no_pkg create_failed no_user ensure_failed no_id enqueued]:
  assumes "request_dataset_management nm T h ctx dd s = (r, s', evs)"
  obtains
    (denied) e where
      "check_access h nm ctx (Some dd) s = (Inl e, s')" "r = Inl e"
      "evs = [CheckAccess nm ctx (Some dd) (Inl e)]"
  | (no_pkg) s1 where
      "check_access h nm ctx (Some dd) s = (Inr (), s1)" "pkg_id dd = None"
      "r = Inl (KeyError ''pkg_id'')" "s' = s1" "evs = [CheckAccess nm ctx (Some dd) (Inr ())]"
  | (create_failed) s1 pkg e evs2 where
      "check_access h nm ctx (Some dd) s = (Inr (), s1)" "pkg_id dd = Some pkg"
      "create_dataset_management_activity h pkg T s1 = (Inl e, s', evs2)" "r = Inl e"
      "evs = CheckAccess nm ctx (Some dd) (Inr ()) # evs2"
  | (no_user) s1 pkg a s2 evs2 where
      "check_access h nm ctx (Some dd) s = (Inr (), s1)" "pkg_id dd = Some pkg"
      "create_dataset_management_activity h pkg T s1 = (Inr a, s2, evs2)"
      "user ctx = None" "r = Inl (KeyError ''user'')" "s' = s2"
      "evs = CheckAccess nm ctx (Some dd) (Inr ()) # evs2"
  | (ensure_failed) s1 pkg a s2 evs2 u e evs3 where
      "check_access h nm ctx (Some dd) s = (Inr (), s1)" "pkg_id dd = Some pkg"
      "create_dataset_management_activity h pkg T s1 = (Inr a, s2, evs2)"
      "user ctx = Some u" "ensure_user_is_notifiable h u pkg s2 = (Inl e, s', evs3)" "r = Inl e"
      "evs = CheckAccess nm ctx (Some dd) (Inr ()) # evs2 @ evs3"
  | (no_id) s1 pkg a s2 evs2 u s3 evs3 where
      "check_access h nm ctx (Some dd) s = (Inr (), s1)" "pkg_id dd = Some pkg"
      "create_dataset_management_activity h pkg T s1 = (Inr a, s2, evs2)"
      "user ctx = Some u" "ensure_user_is_notifiable h u pkg s2 = (Inr (), s3, evs3)"
      "map_of a ''id'' = None" "r = Inl (KeyError ''id'')" "s' = s3"
      "evs = CheckAccess nm ctx (Some dd) (Inr ()) # evs2 @ evs3"
  | (enqueued) s1 pkg a s2 evs2 u s3 evs3 aid where
      "check_access h nm ctx (Some dd) s = (Inr (), s1)" "pkg_id dd = Some pkg"
      "create_dataset_management_activity h pkg T s1 = (Inr a, s2, evs2)"
      "user ctx = Some u" "ensure_user_is_notifiable h u pkg s2 = (Inr (), s3, evs3)"
      "map_of a ''id'' = Some aid"
      "enqueue_job h notify_org_admins_of_dataset_management_request [aid] s3 = (r, s')"
      "evs = CheckAccess nm ctx (Some dd) (Inr ()) # evs2 @ evs3 @
             [EnqueueJob notify_org_admins_of_dataset_management_request [aid] r]"
  using request_run [OF assms]
  apply (elim disjE exE conjE)
  subgoal by (rule that(1))
  subgoal by (rule that(2))
  subgoal by (rule that(3))
  subgoal by (rule that(4))
  subgoal by (rule that(5))
  subgoal by (rule that(6))
  subgoal by (rule that(7))
  done

lemma request_notify_events:
  assumes "request_dataset_management nm T h ctx dd s = (r, s', evs)"
  shows "(\<forall>p rp. EmcUserPatch p rp \<in> set evs \<longrightarrow>
            user ctx = Some (patch_id p) \<and> activity_streams_email_notifications p)
       \<and> (\<forall>i rf. FollowDataset i rf \<in> set evs \<longrightarrow> pkg_id dd = Some i)"
  using assms
proof (cases rule: request_cases)
  case (denied e)
  then show ?thesis by simp
next
  case (no_pkg s1)
  then show ?thesis by simp
next
  case (create_failed s1 pkg e evs2)
  from create_no_patch_no_follow [OF create_failed(3)] create_failed(5) show ?thesis by simp
next
  case (no_user s1 pkg a s2 evs2)
  from create_no_patch_no_follow [OF no_user(3)] no_user(7) show ?thesis by simp
next
  case (ensure_failed s1 pkg a s2 evs2 u e evs3)
  from create_no_patch_no_follow [OF ensure_failed(3)] ensure_failed(2,4,7)
       ensure_patch_event [OF ensure_failed(5)] ensure_follow_event [OF ensure_failed(5)]
  show ?thesis by auto
next
  case (no_id s1 pkg a s2 evs2 u s3 evs3)
  from create_no_patch_no_follow [OF no_id(3)] no_id(2,4,9)
       ensure_patch_event [OF no_id(5)] ensure_follow_event [OF no_id(5)]
  show ?thesis by auto
next
  case (enqueued s1 pkg a s2 evs2 u s3 evs3 aid)
  from create_no_patch_no_follow [OF enqueued(3)] enqueued(2,4,8)
       ensure_patch_event [OF enqueued(5)] ensure_follow_event [OF enqueued(5)]
  show ?thesis by auto
qed

lemma request_swallowed:
  assumes "request_dataset_management nm T h ctx dd s = (r, s', evs)"
      and "FollowDataset i (Inl (ValidationError m)) \<in> set evs"
  shows "\<exists>c d a. ActivityCreate c d (Inr a) \<in> set evs \<and>
           (case map_of a ''id'' of
              None \<Rightarrow> r = Inl (KeyError ''id'')
            | Some aid \<Rightarrow> last evs = EnqueueJob notify_org_admins_of_dataset_management_request [aid] r)"
  using assms(1)
proof (cases rule: request_cases)
  case (denied e)
  with assms(2) show ?thesis by simp
next
  case (no_pkg s1)
  with assms(2) show ?thesis by simp
next
  case (create_failed s1 pkg e evs2)
  from create_no_patch_no_follow [OF create_failed(3)] create_failed(5) assms(2)
  show ?thesis by simp
next
  case (no_user s1 pkg a s2 evs2)
  from create_no_patch_no_follow [OF no_user(3)] no_user(7) assms(2)
  show ?thesis by simp
next
  case (ensure_failed s1 pkg a s2 evs2 u e evs3)
  from create_no_patch_no_follow [OF ensure_failed(3)] ensure_failed(7) assms(2)
  have "FollowDataset i (Inl (ValidationError m)) \<in> set evs3" by simp
  from ensure_swallowed [OF ensure_failed(5) this] show ?thesis by simp
next
  case (no_id s1 pkg a s2 evs2 u s3 evs3)
  from create_success_event [OF no_id(3)] obtain c d where "ActivityCreate c d (Inr a) \<in> set evs2"
    by blast
  with no_id(6,7,9) show ?thesis
    by (intro exI [of _ c] exI [of _ d] exI [of _ a]) simp
next
  case (enqueued s1 pkg a s2 evs2 u s3 evs3 aid)
  from create_success_event [OF enqueued(3)] obtain c d where "ActivityCreate c d (Inr a) \<in> set evs2"
    by blast
  with enqueued(6,8) show ?thesis
    by (intro exI [of _ c] exI [of _ d] exI [of _ a]) simp
qed

subsection \<open>The version reporter\<close>

text \<open>
  Claim C8, as amended. When the distribution of the package is installed, so that
  \<open>pkg_resources.require\<close> finds it, \<open>show_version\<close> returns, for every \<open>context\<close> and
  \<open>data_dict\<close>, absent or not, the mapping with the two keys \<open>version\<close> and \<open>git_sha\<close>, the
  first holding the version of the installed distribution and the second the value of
  \<open>GIT_COMMIT\<close> in the environment, which is \<open>None\<close> when the variable is unset. It makes
  no host call, so no access check either, and it leaves the host state alone. The
  lookup of the distribution is its only error condition.
\<close>

theorem show_version_mapping:
  assumes "require h ''ckanext-dalrrd-emc-dcpr'' = Inr (d # ds)"
  shows "show_version h context data_dict s =
           (Inr [(''version'', Some (version d)), (''git_sha'', getenv h ''GIT_COMMIT'')], s, [])"
  using assms by (simp add: show_version_def return_def)

theorem show_version_mapping_witness:
  "require sample_host ''ckanext-dalrrd-emc-dcpr'' = Inr [\<lparr>version = ''0.1.0''\<rparr>] \<and>
   show_version sample_host None None (sample_start [] ''u-bob'') =
     (Inr [(''version'', Some ''0.1.0''), (''git_sha'', None)], sample_start [] ''u-bob'', [])"
proof -
  have installed: "require sample_host ''ckanext-dalrrd-emc-dcpr'' = Inr [\<lparr>version = ''0.1.0''\<rparr>]"
    by (simp add: sample_host_def)
  have unset: "getenv sample_host ''GIT_COMMIT'' = None"
    by (simp add: sample_host_def)
  from show_version_mapping [OF installed, of None None "sample_start [] ''u-bob''"] installed unset
  show ?thesis by simp
qed

text \<open>
  The claim as first stated has no error condition at all. Where the distribution is not
  installed under that name the lookup raises, and \<open>show_version\<close> with it.
\<close>

theorem show_version_raises_when_not_installed:
  "require uninstalled_host ''ckanext-dalrrd-emc-dcpr'' = Inl DistributionNotFound
   \<and> show_version uninstalled_host None None may_request = (Inl DistributionNotFound, may_request, [])"
  by (simp add: show_version_def uninstalled_host_def raise_def)

subsection \<open>Callers without permission\<close>

text \<open>
  Claim C1. When the access check of a protected action raises \<open>NotAuthorized\<close>, the
  action raises \<open>NotAuthorized\<close>, the only host call it has made is that access check,
  and the host state is the one the check left: no query is run, no activity is created,
  no user is patched, no follow is attempted and no job is enqueued.
\<close>

theorem unauthorized_caller_no_side_effects:
  "(check_access h ''emc_authorize_list_featured_datasets'' context dd s = (Inl NotAuthorized, s') \<longrightarrow>
      list_featured_datasets h context dd s =
        (Inl NotAuthorized, s',
         [CheckAccess ''emc_authorize_list_featured_datasets'' context dd (Inl NotAuthorized)]))
   \<and> (check_access h ''emc_request_dataset_maintenance'' context (Some d) s = (Inl NotAuthorized, s') \<longrightarrow>
      request_dataset_maintenance h context d s =
        (Inl NotAuthorized, s',
         [CheckAccess ''emc_request_dataset_maintenance'' context (Some d) (Inl NotAuthorized)]))
   \<and> (check_access h ''emc_request_dataset_publication'' context (Some d) s = (Inl NotAuthorized, s') \<longrightarrow>
      request_dataset_publication h context d s =
        (Inl NotAuthorized, s',
         [CheckAccess ''emc_request_dataset_publication'' context (Some d) (Inl NotAuthorized)]))"
  by (simp add: list_featured_datasets_def request_dataset_maintenance_def
        request_dataset_publication_def and_then_def host_call_def)

theorem unauthorized_caller_no_side_effects_witness:
  "check_access sample_host ''emc_authorize_list_featured_datasets'' alice_context None (sample_start [] ''u-bob'')
     = (Inl NotAuthorized, sample_start [] ''u-bob'')
   \<and> list_featured_datasets sample_host alice_context None (sample_start [] ''u-bob'')
     = (Inl NotAuthorized, sample_start [] ''u-bob'',
        [CheckAccess ''emc_authorize_list_featured_datasets'' alice_context None (Inl NotAuthorized)])
   \<and> check_access sample_host ''emc_request_dataset_maintenance'' alice_context (Some request_for_ds1)
       (sample_start [] ''u-bob'')
     = (Inl NotAuthorized, sample_start [] ''u-bob'')
   \<and> request_dataset_maintenance sample_host alice_context request_for_ds1 (sample_start [] ''u-bob'')
     = (Inl NotAuthorized, sample_start [] ''u-bob'',
        [CheckAccess ''emc_request_dataset_maintenance'' alice_context (Some request_for_ds1) (Inl NotAuthorized)])
   \<and> check_access sample_host ''emc_request_dataset_publication'' alice_context (Some request_for_ds1)
       (sample_start [] ''u-bob'')
     = (Inl NotAuthorized, sample_start [] ''u-bob'')
   \<and> request_dataset_publication sample_host alice_context request_for_ds1 (sample_start [] ''u-bob'')
     = (Inl NotAuthorized, sample_start [] ''u-bob'',
        [CheckAccess ''emc_request_dataset_publication'' alice_context (Some request_for_ds1) (Inl NotAuthorized)])"
proof -
  have denied: "check_access sample_host n alice_context dd (sample_start [] ''u-bob'')
                  = (Inl NotAuthorized, sample_start [] ''u-bob'')" for n dd
    by (simp add: sample_host_def sample_start_def)
  from unauthorized_caller_no_side_effects
         [of sample_host alice_context None "sample_start [] ''u-bob''" "sample_start [] ''u-bob''"
             request_for_ds1]
       denied
  show ?thesis by simp
qed

subsection \<open>One procedure, two handlers\<close>


subsection \<open>The order of the steps\<close>



subsection \<open>A successful request\<close>

text \<open>
  A request that returns has gone through every step with the host: each call below is
  made in the state the call before it has left, and the state the handler returns is
  the one \<open>enqueue_job\<close> leaves.
\<close>

lemma request_success_chain:
  assumes "request_dataset_management nm T h ctx dd s = (Inr x, s', evs)"
  shows "\<exists>pkg cu sch atv oiv v ds u C D a aid rf s1 s2 s3 s4 s5 s6 s7.
      pkg_id dd = Some pkg \<and> user ctx = Some cu \<and>
      check_access h nm ctx (Some dd) s = (Inr (), s1) \<and>
      default_create_activity_schema h s1 = (Inr sch, s2) \<and>
      map_of sch ''activity_type'' = Some atv \<and> map_of sch ''object_id'' = Some oiv \<and>
      get_validator h ''package_id_exists'' s2 = (Inr v, s3) \<and>
      package_show h pkg s3 = (Inr ds, s4) \<and>
      g_userobj h s4 = Some u \<and>
      C = \<lparr>ignore_auth = True,
           schema = AList.update ''object_id'' (remove_named ''object_id_validator'' oiv @ [v])
                      (AList.update ''activity_type'' (remove_named ''activity_type_exists'' atv) sch)\<rparr> \<and>
      D = \<lparr>user_id = userobj_id u, object_id = pkg, activity_type = type_value h T,
           data = [(''package'', ds)]\<rparr> \<and>
      activity_create h C D s4 = (Inr a, s5) \<and>
      map_of a ''id'' = Some aid \<and>
      emc_user_patch h \<lparr>patch_id = cu, activity_streams_email_notifications = True\<rparr> s5 = (Inr (), s6) \<and>
      follow_dataset h pkg s6 = (rf, s7) \<and>
      enqueue_job h notify_org_admins_of_dataset_management_request [aid] s7 = (Inr (), s') \<and>
      evs = [CheckAccess nm ctx (Some dd) (Inr ()),
             DefaultCreateActivitySchema (Inr sch),
             GetValidator ''package_id_exists'' (Inr v),
             PackageShow pkg (Inr ds),
             ActivityCreate C D (Inr a),
             EmcUserPatch \<lparr>patch_id = cu, activity_streams_email_notifications = True\<rparr> (Inr ()),
             FollowDataset pkg rf,
             EnqueueJob notify_org_admins_of_dataset_management_request [aid] (Inr ())]"
  using assms
proof (cases rule: request_cases)
  case (denied e)
  then show ?thesis by simp
next
  case (no_pkg s1)
  then show ?thesis by simp
next
  case (create_failed s1 pkg e evs2)
  then show ?thesis by simp
next
  case (no_user s1 pkg a s2 evs2)
  then show ?thesis by simp
next
  case (ensure_failed s1 pkg a s2 evs2 u e evs3)
  then show ?thesis by simp
next
  case (no_id s1 pkg a s2 evs2 u s3 evs3)
  then show ?thesis by simp
next
  case (enqueued s1 pkg a s5 evs2 cu s7 evs3 aid)
  from create_success [OF enqueued(3)] obtain sch atv oiv v ds u s2 s3 s4 C D where
    created: "default_create_activity_schema h s1 = (Inr sch, s2)"
      "map_of sch ''activity_type'' = Some atv" "map_of sch ''object_id'' = Some oiv"
      "get_validator h ''package_id_exists'' s2 = (Inr v, s3)"
      "package_show h pkg s3 = (Inr ds, s4)"
      "g_userobj h s4 = Some u"
      "C = \<lparr>ignore_auth = True,
            schema = AList.update ''object_id'' (remove_named ''object_id_validator'' oiv @ [v])
                       (AList.update ''activity_type'' (remove_named ''activity_type_exists'' atv) sch)\<rparr>"
      "D = \<lparr>user_id = userobj_id u, object_id = pkg, activity_type = type_value h T,
            data = [(''package'', ds)]\<rparr>"
      "activity_create h C D s4 = (Inr a, s5)"
      "evs2 = [DefaultCreateActivitySchema (Inr sch), GetValidator ''package_id_exists'' (Inr v),
               PackageShow pkg (Inr ds), ActivityCreate C D (Inr a)]"
    by blast
  from ensure_success [OF enqueued(5)] obtain s6 rf where
    notified: "emc_user_patch h \<lparr>patch_id = cu, activity_streams_email_notifications = True\<rparr> s5
                 = (Inr (), s6)"
      "follow_dataset h pkg s6 = (rf, s7)"
      "evs3 = [EmcUserPatch \<lparr>patch_id = cu, activity_streams_email_notifications = True\<rparr> (Inr ()),
               FollowDataset pkg rf]"
    by blast
  have job: "enqueue_job h notify_org_admins_of_dataset_management_request [aid] s7 = (Inr (), s')"
    using enqueued(7) by simp
  have calls: "evs = [CheckAccess nm ctx (Some dd) (Inr ()),
             DefaultCreateActivitySchema (Inr sch),
             GetValidator ''package_id_exists'' (Inr v),
             PackageShow pkg (Inr ds),
             ActivityCreate C D (Inr a),
             EmcUserPatch \<lparr>patch_id = cu, activity_streams_email_notifications = True\<rparr> (Inr ()),
             FollowDataset pkg rf,
             EnqueueJob notify_org_admins_of_dataset_management_request [aid] (Inr ())]"
    using enqueued(8) created(10) notified(3) by simp
  from enqueued(1,2,4,6) created(1-9) notified(1,2) job calls show ?thesis by blast
qed

text \<open>
  Claim C6. A maintenance or publication request on \<open>pkg_id\<close> that returns has asked
  the host, each once and each in the state the step before has left: for the access
  check, for the default schema, the validator and the dataset (\<open>package_show\<close> of
  \<open>pkg_id\<close>), then for one \<open>activity_create\<close> whose \<open>object_id\<close> is \<open>pkg_id\<close>, whose
  \<open>activity_type\<close> is the value of the handler's own type and whose \<open>data\<close> holds, under
  \<open>package\<close>, the dataset \<open>package_show\<close> has just returned; then for the user patch and
  the follow; and last for one \<open>enqueue_job\<close> whose only argument is the \<open>id\<close> of the
  activity that \<open>activity_create\<close> returned. Both \<open>activity_create\<close> and \<open>enqueue_job\<close>
  have succeeded, and the host state the handler returns is the one \<open>enqueue_job\<close> has
  left. No other host call is made.
\<close>

theorem successful_request_one_activity_one_job:
  assumes "handler op h context dd s = (Inr x, s', evs)"
  shows "\<exists>pkg cu sch atv oiv v ds u C D a aid rf s1 s2 s3 s4 s5 s6 s7.
      pkg_id dd = Some pkg \<and> user context = Some cu \<and>
      check_access h (authorization_name op) context (Some dd) s = (Inr (), s1) \<and>
      default_create_activity_schema h s1 = (Inr sch, s2) \<and>
      map_of sch ''activity_type'' = Some atv \<and> map_of sch ''object_id'' = Some oiv \<and>
      get_validator h ''package_id_exists'' s2 = (Inr v, s3) \<and>
      package_show h pkg s3 = (Inr ds, s4) \<and>
      g_userobj h s4 = Some u \<and>
      C = \<lparr>ignore_auth = True,
           schema = AList.update ''object_id'' (remove_named ''object_id_validator'' oiv @ [v])
                      (AList.update ''activity_type'' (remove_named ''activity_type_exists'' atv) sch)\<rparr> \<and>
      D = \<lparr>user_id = userobj_id u, object_id = pkg,
           activity_type = type_value h (recorded_type op), data = [(''package'', ds)]\<rparr> \<and>
      activity_create h C D s4 = (Inr a, s5) \<and>
      map_of a ''id'' = Some aid \<and>
      emc_user_patch h \<lparr>patch_id = cu, activity_streams_email_notifications = True\<rparr> s5 = (Inr (), s6) \<and>
      follow_dataset h pkg s6 = (rf, s7) \<and>
      enqueue_job h notify_org_admins_of_dataset_management_request [aid] s7 = (Inr (), s') \<and>
      evs = [CheckAccess (authorization_name op) context (Some dd) (Inr ()),
             DefaultCreateActivitySchema (Inr sch),
             GetValidator ''package_id_exists'' (Inr v),
             PackageShow pkg (Inr ds),
             ActivityCreate C D (Inr a),
             EmcUserPatch \<lparr>patch_id = cu, activity_streams_email_notifications = True\<rparr> (Inr ()),
             FollowDataset pkg rf,
             EnqueueJob notify_org_admins_of_dataset_management_request [aid] (Inr ())]
      \<and> count_list (map kind evs) KActivityCreate = 1
      \<and> count_list (map kind evs) KEnqueueJob = 1"
proof -
  have "request_dataset_management (authorization_name op) (recorded_type op) h context dd s = (Inr x, s', evs)"
    using assms by (simp add: handler_generic)
  from request_success_chain [OF this]
  obtain pkg cu sch atv oiv v ds u C D a aid rf s1 s2 s3 s4 s5 s6 s7 where
    steps: "pkg_id dd = Some pkg" "user context = Some cu"
      "check_access h (authorization_name op) context (Some dd) s = (Inr (), s1)"
      "default_create_activity_schema h s1 = (Inr sch, s2)"
      "map_of sch ''activity_type'' = Some atv" "map_of sch ''object_id'' = Some oiv"
      "get_validator h ''package_id_exists'' s2 = (Inr v, s3)"
      "package_show h pkg s3 = (Inr ds, s4)"
      "g_userobj h s4 = Some u"
      "C = \<lparr>ignore_auth = True,
            schema = AList.update ''object_id'' (remove_named ''object_id_validator'' oiv @ [v])
                       (AList.update ''activity_type'' (remove_named ''activity_type_exists'' atv) sch)\<rparr>"
      "D = \<lparr>user_id = userobj_id u, object_id = pkg,
            activity_type = type_value h (recorded_type op), data = [(''package'', ds)]\<rparr>"
      "activity_create h C D s4 = (Inr a, s5)"
      "map_of a ''id'' = Some aid"
      "emc_user_patch h \<lparr>patch_id = cu, activity_streams_email_notifications = True\<rparr> s5 = (Inr (), s6)"
      "follow_dataset h pkg s6 = (rf, s7)"
      "enqueue_job h notify_org_admins_of_dataset_management_request [aid] s7 = (Inr (), s')" and
    calls: "evs = [CheckAccess (authorization_name op) context (Some dd) (Inr ()),
             DefaultCreateActivitySchema (Inr sch),
             GetValidator ''package_id_exists'' (Inr v),
             PackageShow pkg (Inr ds),
             ActivityCreate C D (Inr a),
             EmcUserPatch \<lparr>patch_id = cu, activity_streams_email_notifications = True\<rparr> (Inr ()),
             FollowDataset pkg rf,
             EnqueueJob notify_org_admins_of_dataset_management_request [aid] (Inr ())]"
    by blast
  have counts: "count_list (map kind evs) KActivityCreate = 1" "count_list (map kind evs) KEnqueueJob = 1"
    by (simp_all add: calls)
  from steps calls counts show ?thesis by blast
qed

theorem successful_request_one_activity_one_job_witness:
  "fst first_request = Inr ()
   \<and> ActivityCreate sample_activity_context sample_activity_data (Inr sample_activity)
       \<in> set (snd (snd first_request))
   \<and> count_list (map kind (snd (snd first_request))) KActivityCreate = 1
   \<and> EnqueueJob notify_org_admins_of_dataset_management_request [''a''] (Inr ())
       \<in> set (snd (snd first_request))
   \<and> count_list (map kind (snd (snd first_request))) KEnqueueJob = 1
   \<and> activities (fst (snd first_request)) = [sample_activity_data]
   \<and> last (queue (fst (snd first_request))) = (notify_org_admins_of_dataset_management_request, [''a''])
   \<and> queue (fst (snd first_request)) = [(notify_org_admins_of_dataset_management_request, [''a''])]"
proof -
  have ok: "fst first_request = Inr ()"
    by code_simp
  have run: "handler Maintenance sample_host alice_context request_for_ds1 may_request
               = (Inr (), fst (snd first_request), snd (snd first_request))"
    using ok by (simp add: first_request_def prod_eq_iff)
  have created: "ActivityCreate sample_activity_context sample_activity_data (Inr sample_activity)
                   \<in> set (snd (snd first_request))"
    by code_simp
  have enqueued: "EnqueueJob notify_org_admins_of_dataset_management_request [''a''] (Inr ())
                    \<in> set (snd (snd first_request))"
    by code_simp
  have recorded: "activities (fst (snd first_request)) = [sample_activity_data]"
    by code_simp
  have queued: "queue (fst (snd first_request)) = [(notify_org_admins_of_dataset_management_request, [''a''])]"
    by code_simp
  from successful_request_one_activity_one_job [OF run]
  obtain aid s7 evs_tail where
    job: "enqueue_job sample_host notify_org_admins_of_dataset_management_request [aid] s7
            = (Inr (), fst (snd first_request))" and
    calls: "snd (snd first_request) =
              evs_tail @ [EnqueueJob notify_org_admins_of_dataset_management_request [aid] (Inr ())]"
           "KEnqueueJob \<notin> kind ` set evs_tail" and
    counts: "count_list (map kind (snd (snd first_request))) KActivityCreate = 1"
            "count_list (map kind (snd (snd first_request))) KEnqueueJob = 1"
    by force
  from enqueued calls have "aid = ''a''"
    by force
  with job have left: "fst (snd first_request)
                   = s7\<lparr>queue := queue s7 @ [(notify_org_admins_of_dataset_management_request, [''a''])]\<rparr>"
    by (auto simp: sample_host_def)
  have "last (queue (fst (snd first_request)))
          = (notify_org_admins_of_dataset_management_request, [''a''])"
    by (subst left) simp
  with ok created enqueued counts recorded queued show ?thesis by simp
qed

subsection \<open>The context of the activity\<close>

text \<open>
  Claim C9. Whatever the caller and whatever the outcome, every \<open>activity_create\<close> call
  of the two handlers is made with a context whose \<open>ignore_auth\<close> is true; the host reads
  that flag as "skip the access check of this action", as the sample host does.
\<close>

theorem activity_created_with_ignore_auth:
  assumes "handler op h context dd s = (r, s', evs)"
  shows "\<forall>c d ra. ActivityCreate c d ra \<in> set evs \<longrightarrow> ignore_auth c"
proof -
  have "request_dataset_management (authorization_name op) (recorded_type op) h context dd s = (r, s', evs)"
    using assms by (simp add: handler_generic)
  from request_activity_event [OF this] show ?thesis by blast
qed

theorem activity_created_with_ignore_auth_witness:
  "ActivityCreate sample_activity_context sample_activity_data (Inr sample_activity)
     \<in> set (snd (snd first_request))
   \<and> ignore_auth sample_activity_context"
proof -
  have run: "handler Maintenance sample_host alice_context request_for_ds1 may_request
               = (fst first_request, fst (snd first_request), snd (snd first_request))"
    by (simp add: first_request_def)
  have created: "ActivityCreate sample_activity_context sample_activity_data (Inr sample_activity)
                   \<in> set (snd (snd first_request))"
    by code_simp
  from activity_created_with_ignore_auth [OF run] created show ?thesis by blast
qed

subsection \<open>Whose request it is\<close>

text \<open>
  Claim C10, as amended. In every maintenance or publication request the \<open>user_id\<close> of
  the activity is the id of \<open>toolkit.g.userobj\<close> in the host state in which
  \<open>activity_create\<close> runs; the user whose email-notification preference is switched on
  is \<open>context["user"]\<close>; and the follow call is handed the dataset id and nothing else,
  so the host, not \<open>context["user"]\<close>, decides who is subscribed. Nothing in the handlers
  compares the two identities: no hypothesis relates them, and the run below succeeds
  with \<open>context["user"]\<close> being \<open>alice\<close> and the request user \<open>u-bob\<close>.
\<close>

theorem identities_of_a_request:
  assumes "handler op h context dd s = (r, s', evs)"
  shows "(\<forall>c d ra. ActivityCreate c d ra \<in> set evs \<longrightarrow>
            (\<exists>s3 s4 u. activity_create h c d s3 = (ra, s4) \<and> g_userobj h s3 = Some u \<and>
                        user_id d = userobj_id u))
       \<and> (\<forall>p rp. EmcUserPatch p rp \<in> set evs \<longrightarrow>
            user context = Some (patch_id p) \<and> activity_streams_email_notifications p)
       \<and> (\<forall>i rf. FollowDataset i rf \<in> set evs \<longrightarrow> pkg_id dd = Some i)"
proof -
  have run: "request_dataset_management (authorization_name op) (recorded_type op) h context dd s = (r, s', evs)"
    using assms by (simp add: handler_generic)
  from request_activity_event [OF run] request_notify_events [OF run] show ?thesis by blast
qed

theorem identities_of_a_request_witness:
  "fst first_request = Inr ()
   \<and> ActivityCreate sample_activity_context sample_activity_data (Inr sample_activity)
       \<in> set (snd (snd first_request))
   \<and> user_id sample_activity_data = ''u-bob''
   \<and> EmcUserPatch \<lparr>patch_id = ''alice'', activity_streams_email_notifications = True\<rparr> (Inr ())
       \<in> set (snd (snd first_request))
   \<and> user alice_context = Some ''alice''
   \<and> FollowDataset ''ds1'' (Inr ()) \<in> set (snd (snd first_request))
   \<and> pkg_id request_for_ds1 = Some ''ds1''"
proof -
  have ok: "fst first_request = Inr ()"
    by code_simp
  have run: "handler Maintenance sample_host alice_context request_for_ds1 may_request
               = (fst first_request, fst (snd first_request), snd (snd first_request))"
    by (simp add: first_request_def)
  have created: "ActivityCreate sample_activity_context sample_activity_data (Inr sample_activity)
                   \<in> set (snd (snd first_request))"
    by code_simp
  have patched: "EmcUserPatch \<lparr>patch_id = ''alice'', activity_streams_email_notifications = True\<rparr> (Inr ())
                   \<in> set (snd (snd first_request))"
    by code_simp
  have followed: "FollowDataset ''ds1'' (Inr ()) \<in> set (snd (snd first_request))"
    by code_simp
  have recorded: "user_id sample_activity_data = ''u-bob''"
    by (simp add: sample_activity_data_def)
  from identities_of_a_request [OF run] patched followed
  have "user alice_context = Some ''alice'' \<and> pkg_id request_for_ds1 = Some ''ds1''"
    by fastforce
  with ok created patched followed recorded show ?thesis by simp
qed

text \<open>
  The claim as first stated has the subscribed user taken from \<open>context["user"]\<close>. On the
  sample host, whose \<open>follow_dataset\<close> subscribes the user of the web request as the
  host's own action does when it is given no context, the request of \<open>alice\<close> subscribes
  \<open>u-bob\<close>.
\<close>

theorem subscriber_is_not_the_context_user:
  "user alice_context = Some ''alice''
   \<and> g_userobj sample_host may_request = Some \<lparr>userobj_id = ''u-bob''\<rparr>
   \<and> fst first_request = Inr ()
   \<and> FollowDataset ''ds1'' (Inr ()) \<in> set (snd (snd first_request))
   \<and> followers (fst (snd first_request)) = [(''u-bob'', ''ds1'')]"
proof -
  have "user alice_context = Some ''alice''"
    by (simp add: alice_context_def)
  moreover have "g_userobj sample_host may_request = Some \<lparr>userobj_id = ''u-bob''\<rparr>"
    by (simp add: sample_host_def may_request_def sample_start_def)
  moreover have "fst first_request = Inr ()"
    by code_simp
  moreover have "FollowDataset ''ds1'' (Inr ()) \<in> set (snd (snd first_request))"
    by code_simp
  moreover have "followers (fst (snd first_request)) = [(''u-bob'', ''ds1'')]"
    by code_simp
  ultimately show ?thesis by simp
qed

subsection \<open>Validation errors\<close>

text \<open>
  How an exception of a host call travels in the two handlers: it ends the handler and
  is its outcome, unless it is a \<open>ValidationError\<close> raised by the follow call; after
  that one the handler goes on to read the id of the activity it has created and to
  enqueue the job, whose outcome is then the handler's. The second request below, for
  the same user and dataset, meets the duplicate follow, does not raise, and leaves a
  second activity and a second job.
\<close>

lemma validation_error_swallowed_at_follow:
  assumes "handler op h context dd s = (r, s', evs)"
  shows "(\<forall>ev\<in>set evs. \<forall>e. raised ev = Some e \<and> \<not> (kind ev = KFollowDataset \<and> (\<exists>m. e = ValidationError m))
            \<longrightarrow> r = Inl e)
       \<and> (\<forall>i m. FollowDataset i (Inl (ValidationError m)) \<in> set evs \<longrightarrow>
            (\<exists>c d a. ActivityCreate c d (Inr a) \<in> set evs \<and>
               (case map_of a ''id'' of
                  None \<Rightarrow> r = Inl (KeyError ''id'')
                | Some aid \<Rightarrow>
                    last evs = EnqueueJob notify_org_admins_of_dataset_management_request [aid] r)))"
proof -
  have run: "request_dataset_management (authorization_name op) (recorded_type op) h context dd s = (r, s', evs)"
    using assms by (simp add: handler_generic)
  have propagated: "r = Inl e"
    if "ev \<in> set evs" "raised ev = Some e" "\<not> (kind ev = KFollowDataset \<and> (\<exists>m. e = ValidationError m))"
    for ev e
    by (rule request_raised [OF run that])
  from propagated request_swallowed [OF run] show ?thesis by blast
qed

lemma second_request_goes_through:
  "ActivityCreate sample_activity_context sample_activity_data (Inl (ValidationError ''Missing value''))
     \<in> set (snd (snd rejected_request))
   \<and> fst rejected_request = Inl (ValidationError ''Missing value'')
   \<and> fst first_request = Inr ()
   \<and> FollowDataset ''ds1'' (Inl (ValidationError ''You are already following this dataset''))
       \<in> set (snd (snd second_request))
   \<and> fst second_request = Inr ()
   \<and> KActivityCreate \<in> kind ` set (snd (snd second_request))
   \<and> length (activities (fst (snd second_request))) = 2
   \<and> queue (fst (snd second_request)) =
       [(notify_org_admins_of_dataset_management_request, [''a'']),
        (notify_org_admins_of_dataset_management_request, [''aa''])]"
proof -
  have run1: "handler Maintenance rejecting_host alice_context request_for_ds1 may_request
                = (fst rejected_request, fst (snd rejected_request), snd (snd rejected_request))"
    by (simp add: rejected_request_def)
  have rejected: "ActivityCreate sample_activity_context sample_activity_data
                    (Inl (ValidationError ''Missing value'')) \<in> set (snd (snd rejected_request))"
    by code_simp
  have raised1: "raised (ActivityCreate sample_activity_context sample_activity_data
                    (Inl (ValidationError ''Missing value''))) = Some (ValidationError ''Missing value'')"
    by (simp add: failure_def)
  from validation_error_swallowed_at_follow [OF run1] rejected raised1
  have propagated: "fst rejected_request = Inl (ValidationError ''Missing value'')"
    by fastforce
  have first_ok: "fst first_request = Inr ()"
    by code_simp
  have run2: "handler Maintenance sample_host alice_context request_for_ds1 (fst (snd first_request))
                = (fst second_request, fst (snd second_request), snd (snd second_request))"
    by (simp add: second_request_def)
  have duplicate: "FollowDataset ''ds1'' (Inl (ValidationError ''You are already following this dataset''))
                     \<in> set (snd (snd second_request))"
    by code_simp
  from validation_error_swallowed_at_follow [OF run2] duplicate
  obtain c d a where "ActivityCreate c d (Inr a) \<in> set (snd (snd second_request))"
    by blast
  then have again: "KActivityCreate \<in> kind ` set (snd (snd second_request))"
    by force
  have second_ok: "fst second_request = Inr ()"
    by code_simp
  have two: "length (activities (fst (snd second_request))) = 2"
    by code_simp
  have jobs: "queue (fst (snd second_request)) =
                [(notify_org_admins_of_dataset_management_request, [''a'']),
                 (notify_org_admins_of_dataset_management_request, [''aa''])]"
    by code_simp
  from rejected propagated first_ok duplicate second_ok again two jobs show ?thesis by simp
qed

text \<open>
  Claim C3. A \<open>ValidationError\<close> raised by a host action is to be swallowed only when
  the follow call reports that the user already follows the dataset, as the comment in
  \<open>_ensure_user_is_notifiable\<close> says, and propagated otherwise. The \<open>except\<close> clause
  catches the exception by its type alone, and so the handler departs from this: in the
  run below nobody follows anything, the follow call fails validation because the
  dataset is not found, and the request returns normally and enqueues its job instead of
  raising that \<open>ValidationError\<close>.
\<close>

theorem other_validation_error_swallowed:
  "followers may_request = []
   \<and> follow_dataset racing_host ''ds1'' may_request = (Inl (ValidationError ''Not found: Dataset''), may_request)
   \<and> fst racing_request = Inr ()
   \<and> FollowDataset ''ds1'' (Inl (ValidationError ''Not found: Dataset'')) \<in> set (snd (snd racing_request))
   \<and> queue (fst (snd racing_request)) = [(notify_org_admins_of_dataset_management_request, [''a''])]"
proof -
  have "followers may_request = []"
    by (simp add: may_request_def sample_start_def)
  moreover have "follow_dataset racing_host ''ds1'' may_request
                   = (Inl (ValidationError ''Not found: Dataset''), may_request)"
    by (simp add: racing_host_def)
  moreover have "fst racing_request = Inr ()"
    by code_simp
  moreover have "FollowDataset ''ds1'' (Inl (ValidationError ''Not found: Dataset''))
                   \<in> set (snd (snd racing_request))"
    by code_simp
  moreover have "queue (fst (snd racing_request)) = [(notify_org_admins_of_dataset_management_request, [''a''])]"
    by code_simp
  ultimately show ?thesis by simp
qed

subsection \<open>The patched activity schema\<close>

text \<open>
  What the two loops do to a validator list: the first validator with the given name
  goes, everything else stays where it was; a list without such a validator is left as
  it is.
\<close>

lemma find_named_Some: "find_named n vs = Some v \<Longrightarrow> vname v = n"
  by (induction vs) (auto split: if_splits)

lemma remove_named_first:
  "remove_named n vs = takeWhile (\<lambda>x. vname x \<noteq> n) vs @ drop 1 (dropWhile (\<lambda>x. vname x \<noteq> n) vs)"
proof (induction vs)
  case Nil
  then show ?case by (simp add: remove_named_def)
next
  case (Cons v vs)
  show ?case
  proof (cases "vname v = n")
    case True
    then show ?thesis by (simp add: remove_named_def)
  next
    case False
    show ?thesis
    proof (cases "find_named n vs")
      case None
      with False Cons show ?thesis by (simp add: remove_named_def)
    next
      case (Some w)
      from find_named_Some [OF Some] False have "w \<noteq> v" by auto
      with False Cons Some show ?thesis by (simp add: remove_named_def)
    qed
  qed
qed

lemma find_named_None: "\<forall>x\<in>set vs. vname x \<noteq> n \<Longrightarrow> find_named n vs = None"
  by (induction vs) auto

lemma remove_named_absent: "\<forall>x\<in>set vs. vname x \<noteq> n \<Longrightarrow> remove_named n vs = vs"
  by (simp add: remove_named_def find_named_None)

lemma key_of_map_of: "map_of al k = Some v \<Longrightarrow> k \<in> fst ` set al"
  by (metis map_of_eq_None_iff option.distinct(1))

lemma create_reaches_activity_create:
  assumes "default_create_activity_schema h s = (Inr sch, s1)"
      and "map_of sch ''activity_type'' = Some atv" and "map_of sch ''object_id'' = Some oiv"
      and "get_validator h ''package_id_exists'' s1 = (Inr v, s2)"
      and "package_show h pkg s2 = (Inr ds, s3)" and "g_userobj h s3 = Some u"
      and "C = \<lparr>ignore_auth = True,
                schema = AList.update ''object_id'' (remove_named ''object_id_validator'' oiv @ [v])
                           (AList.update ''activity_type'' (remove_named ''activity_type_exists'' atv) sch)\<rparr>"
      and "D = \<lparr>user_id = userobj_id u, object_id = pkg, activity_type = type_value h T,
                data = [(''package'', ds)]\<rparr>"
  shows "create_dataset_management_activity h pkg T s =
           (fst (activity_create h C D s3), snd (activity_create h C D s3),
            [DefaultCreateActivitySchema (Inr sch), GetValidator ''package_id_exists'' (Inr v),
             PackageShow pkg (Inr ds), ActivityCreate C D (fst (activity_create h C D s3))])"
  using assms
  by (simp add: create_dataset_management_activity_def run_defs Let_def update_conv split: prod.splits)

text \<open>
  Claim C5. The schema handed to \<open>activity_create\<close> is the one the host's
  \<open>default_create_activity_schema\<close> has just returned for this call, with the same keys,
  in which the \<open>activity_type\<close> list has lost its first validator named
  \<open>activity_type_exists\<close>, the \<open>object_id\<close> list has lost its first validator named
  \<open>object_id_validator\<close> and gained the \<open>package_id_exists\<close> validator at its end, and
  every other key is untouched. When a list holds no validator of the name, it is left
  as it is (plus the appended validator, for \<open>object_id\<close>), and patching raises nothing:
  with both lists present the procedure always reaches \<open>activity_create\<close>. The
  embedding works on values, so the patch cannot reach the host's own schema; in the
  source that rests on the host building a new schema at each call.
\<close>

theorem activity_schema_patch:
  assumes "default_create_activity_schema h s = (Inr sch, s1)"
      and "map_of sch ''activity_type'' = Some atv" and "map_of sch ''object_id'' = Some oiv"
      and "get_validator h ''package_id_exists'' s1 = (Inr v, s2)"
      and "package_show h pkg s2 = (Inr ds, s3)" and "g_userobj h s3 = Some u"
  shows "\<exists>C D.
      create_dataset_management_activity h pkg T s =
        (fst (activity_create h C D s3), snd (activity_create h C D s3),
         [DefaultCreateActivitySchema (Inr sch), GetValidator ''package_id_exists'' (Inr v),
          PackageShow pkg (Inr ds), ActivityCreate C D (fst (activity_create h C D s3))])
      \<and> map fst (schema C) = map fst sch
      \<and> map_of (schema C) =
          (map_of sch)
            (''activity_type'' \<mapsto>
               takeWhile (\<lambda>x. vname x \<noteq> ''activity_type_exists'') atv
               @ drop 1 (dropWhile (\<lambda>x. vname x \<noteq> ''activity_type_exists'') atv),
             ''object_id'' \<mapsto>
               takeWhile (\<lambda>x. vname x \<noteq> ''object_id_validator'') oiv
               @ drop 1 (dropWhile (\<lambda>x. vname x \<noteq> ''object_id_validator'') oiv) @ [v])
      \<and> ((\<forall>x\<in>set atv. vname x \<noteq> ''activity_type_exists'') \<longrightarrow>
            map_of (schema C) ''activity_type'' = Some atv)
      \<and> ((\<forall>x\<in>set oiv. vname x \<noteq> ''object_id_validator'') \<longrightarrow>
            map_of (schema C) ''object_id'' = Some (oiv @ [v]))"
proof -
  define C where
    "C = \<lparr>ignore_auth = True,
          schema = AList.update ''object_id'' (remove_named ''object_id_validator'' oiv @ [v])
                     (AList.update ''activity_type'' (remove_named ''activity_type_exists'' atv) sch)\<rparr>"
  define D where
    "D = \<lparr>user_id = userobj_id u, object_id = pkg, activity_type = type_value h T,
          data = [(''package'', ds)]\<rparr>"
  have run: "create_dataset_management_activity h pkg T s =
        (fst (activity_create h C D s3), snd (activity_create h C D s3),
         [DefaultCreateActivitySchema (Inr sch), GetValidator ''package_id_exists'' (Inr v),
          PackageShow pkg (Inr ds), ActivityCreate C D (fst (activity_create h C D s3))])"
    by (rule create_reaches_activity_create [OF assms C_def D_def])
  have keys: "map fst (schema C) = map fst sch"
    using key_of_map_of [OF assms(2)] key_of_map_of [OF assms(3)]
    by (simp add: C_def update_keys)
  have maps: "map_of (schema C) =
          (map_of sch)
            (''activity_type'' \<mapsto>
               takeWhile (\<lambda>x. vname x \<noteq> ''activity_type_exists'') atv
               @ drop 1 (dropWhile (\<lambda>x. vname x \<noteq> ''activity_type_exists'') atv),
             ''object_id'' \<mapsto>
               takeWhile (\<lambda>x. vname x \<noteq> ''object_id_validator'') oiv
               @ drop 1 (dropWhile (\<lambda>x. vname x \<noteq> ''object_id_validator'') oiv) @ [v])"
    by (rule ext) (simp add: C_def update_conv remove_named_first)
  have absent1: "map_of (schema C) ''activity_type'' = Some atv"
    if "\<forall>x\<in>set atv. vname x \<noteq> ''activity_type_exists''"
    using that by (simp add: C_def update_conv remove_named_absent)
  have absent2: "map_of (schema C) ''object_id'' = Some (oiv @ [v])"
    if "\<forall>x\<in>set oiv. vname x \<noteq> ''object_id_validator''"
    using that by (simp add: C_def update_conv remove_named_absent)
  from run keys maps absent1 absent2 show ?thesis by blast
qed

theorem activity_schema_patch_witness:
  "last (snd (snd (create_dataset_management_activity sample_host ''ds1'' REQUEST_MAINTENANCE may_request)))
     = ActivityCreate sample_activity_context sample_activity_data (Inr sample_activity)
   \<and> map_of (schema sample_activity_context) ''activity_type''
     = Some [Validator 1 ''not_missing'', Validator 2 ''not_empty'', Validator 3 ''unicode_safe'']
   \<and> map_of (schema sample_activity_context) ''object_id''
     = Some [Validator 1 ''not_missing'', Validator 2 ''not_empty'', Validator 3 ''unicode_safe'',
             Validator 9 ''package_id_exists'']
   \<and> last (snd (snd (create_dataset_management_activity bare_host ''ds1'' REQUEST_MAINTENANCE may_request)))
     = ActivityCreate bare_activity_context sample_activity_data (Inr sample_activity)
   \<and> map_of (schema bare_activity_context) ''activity_type''
     = Some [Validator 1 ''not_missing'', Validator 3 ''unicode_safe'']
   \<and> map_of (schema bare_activity_context) ''object_id''
     = Some [Validator 1 ''not_missing'', Validator 9 ''package_id_exists'']"
proof -
  have default1: "default_create_activity_schema sample_host may_request = (Inr sample_schema, may_request)"
    by (simp add: sample_host_def)
  have at1: "map_of sample_schema ''activity_type''
               = Some [Validator 1 ''not_missing'', Validator 2 ''not_empty'', Validator 3 ''unicode_safe'',
                       Validator 6 ''activity_type_exists'']"
    by (simp add: sample_schema_def)
  have oi1: "map_of sample_schema ''object_id''
               = Some [Validator 1 ''not_missing'', Validator 2 ''not_empty'', Validator 3 ''unicode_safe'',
                       Validator 5 ''object_id_validator'']"
    by (simp add: sample_schema_def)
  have gv1: "get_validator sample_host ''package_id_exists'' may_request
               = (Inr (Validator 9 ''package_id_exists''), may_request)"
    by (simp add: sample_host_def)
  have ps1: "package_show sample_host ''ds1'' may_request = (Inr sample_dataset, may_request)"
    by (simp add: sample_host_def may_request_def sample_start_def)
  have g1: "g_userobj sample_host may_request = Some \<lparr>userobj_id = ''u-bob''\<rparr>"
    by (simp add: sample_host_def may_request_def sample_start_def)
  have last1: "last (snd (snd (create_dataset_management_activity sample_host ''ds1'' REQUEST_MAINTENANCE
                                 may_request)))
                 = ActivityCreate sample_activity_context sample_activity_data (Inr sample_activity)"
    by code_simp
  from activity_schema_patch [OF default1 at1 oi1 gv1 ps1 g1, of REQUEST_MAINTENANCE] last1
  have patched:
    "map_of (schema sample_activity_context) ''activity_type''
       = Some [Validator 1 ''not_missing'', Validator 2 ''not_empty'', Validator 3 ''unicode_safe'']
     \<and> map_of (schema sample_activity_context) ''object_id''
       = Some [Validator 1 ''not_missing'', Validator 2 ''not_empty'', Validator 3 ''unicode_safe'',
               Validator 9 ''package_id_exists'']"
    by auto
  have default2: "default_create_activity_schema bare_host may_request = (Inr bare_schema, may_request)"
    by (simp add: bare_host_def)
  have at2: "map_of bare_schema ''activity_type''
               = Some [Validator 1 ''not_missing'', Validator 3 ''unicode_safe'']"
    by (simp add: bare_schema_def)
  have oi2: "map_of bare_schema ''object_id'' = Some [Validator 1 ''not_missing'']"
    by (simp add: bare_schema_def)
  have gv2: "get_validator bare_host ''package_id_exists'' may_request
               = (Inr (Validator 9 ''package_id_exists''), may_request)"
    by (simp add: bare_host_def sample_host_def)
  have ps2: "package_show bare_host ''ds1'' may_request = (Inr sample_dataset, may_request)"
    by (simp add: bare_host_def sample_host_def may_request_def sample_start_def)
  have g2: "g_userobj bare_host may_request = Some \<lparr>userobj_id = ''u-bob''\<rparr>"
    by (simp add: bare_host_def sample_host_def may_request_def sample_start_def)
  have last2: "last (snd (snd (create_dataset_management_activity bare_host ''ds1'' REQUEST_MAINTENANCE
                                 may_request)))
                 = ActivityCreate bare_activity_context sample_activity_data (Inr sample_activity)"
    by code_simp
  have none2: "\<forall>x\<in>set [Validator 1 ''not_missing'', Validator 3 ''unicode_safe''].
                 vname x \<noteq> ''activity_type_exists''"
              "\<forall>x\<in>set [Validator 1 ''not_missing'']. vname x \<noteq> ''object_id_validator''"
    by simp_all
  from activity_schema_patch [OF default2 at2 oi2 gv2 ps2 g2, of REQUEST_MAINTENANCE] last2 none2
  have skipped:
    "map_of (schema bare_activity_context) ''activity_type''
       = Some [Validator 1 ''not_missing'', Validator 3 ''unicode_safe'']
     \<and> map_of (schema bare_activity_context) ''object_id''
       = Some [Validator 1 ''not_missing'', Validator 9 ''package_id_exists'']"
    by auto
  from last1 patched last2 skipped show ?thesis by simp
qed

subsection \<open>The featured datasets\<close>

lemma selected_rows:
  "map f (filter P (concat (map (\<lambda>p. map (Pair p) (filter (Q p) es)) ps)))
     = concat (map (\<lambda>p. concat (map (\<lambda>e. if Q p e \<and> P (p, e) then [f (p, e)] else []) es)) ps)"
proof (induction ps)
  case Nil
  then show ?case by simp
next
  case (Cons p ps)
  have "map f (filter P (map (Pair p) (filter (Q p) es)))
          = concat (map (\<lambda>e. if Q p e \<and> P (p, e) then [f (p, e)] else []) es)"
    by (induction es) auto
  with Cons show ?case by simp
qed

text \<open>
  Claim C4, as amended. For an authorised call whose \<open>limit\<close> and \<open>offset\<close> are not
  negative, \<open>list_featured_datasets\<close> returns the name rows of the datasets joined with
  their extras whose \<open>featured\<close> is the string \<open>true\<close>, whose state is \<open>active\<close> and whose
  private flag equals \<open>include_private\<close>, one row for each such pair of the join, after
  skipping \<open>offset\<close> rows and keeping at most \<open>limit\<close> rows; an option that is absent, or
  a \<open>data_dict\<close> that is \<open>None\<close>, gives \<open>include_private\<close> false, \<open>limit\<close> 10 and
  \<open>offset\<close> 0. The host state is the one the access check left.
\<close>

theorem featured_datasets_listed:
  assumes "check_access h ''emc_authorize_list_featured_datasets'' context dd s = (Inr (), s')"
      and "0 \<le> dict_get (Option.bind dd limit) 10"
      and "0 \<le> dict_get (Option.bind dd offset) 0"
  shows "fst (list_featured_datasets h context dd s) =
           Inr (take (nat (dict_get (Option.bind dd limit) 10))
                 (drop (nat (dict_get (Option.bind dd offset) 0))
                   [[SqlStr (name p)].
                      p \<leftarrow> package_table (model context), e \<leftarrow> package_extra_table (model context),
                      package_id e = row_id p \<and> featured e = ''true'' \<and> state p = ''active'' \<and>
                      private_flag p = dict_get (Option.bind dd include_private) False]))
       \<and> fst (snd (list_featured_datasets h context dd s)) = s'"
proof (cases dd)
  case None
  with assms show ?thesis
    by (simp add: list_featured_datasets_def run_defs execute_def joined_def selected_rows dict_get_def
          Let_def cong: if_cong)
next
  case (Some d)
  with assms show ?thesis
    by (simp add: list_featured_datasets_def run_defs execute_def joined_def selected_rows dict_get_def
          Let_def split: option.splits cong: if_cong)
qed

theorem featured_datasets_listed_witness:
  "check_access sample_host ''emc_authorize_list_featured_datasets'' alice_context None may_list
     = (Inr (), may_list)
   \<and> fst (list_featured_datasets sample_host alice_context None may_list)
     = Inr [[SqlStr ''rivers''], [SqlStr ''wards'']]
   \<and> fst (list_featured_datasets sample_host alice_context (Some second_page) may_list)
     = Inr [[SqlStr ''wards'']]"
proof -
  have allowed: "check_access sample_host ''emc_authorize_list_featured_datasets'' alice_context dd may_list
                   = (Inr (), may_list)" for dd
    by (simp add: sample_host_def may_list_def sample_start_def)
  have defaults: "0 \<le> dict_get (Option.bind None limit) (10::int)"
                 "0 \<le> dict_get (Option.bind None offset) (0::int)"
    by (simp_all add: dict_get_def)
  have given: "0 \<le> dict_get (Option.bind (Some second_page) limit) (10::int)"
              "0 \<le> dict_get (Option.bind (Some second_page) offset) (0::int)"
    by (simp_all add: dict_get_def second_page_def)
  have first_page_rows:
    "take (nat (dict_get (Option.bind None limit) 10))
       (drop (nat (dict_get (Option.bind None offset) 0))
          [[SqlStr (name p)].
             p \<leftarrow> package_table (model alice_context), e \<leftarrow> package_extra_table (model alice_context),
             package_id e = row_id p \<and> featured e = ''true'' \<and> state p = ''active'' \<and>
             private_flag p = dict_get (Option.bind None include_private) False])
       = [[SqlStr ''rivers''], [SqlStr ''wards'']]"
    by (simp add: dict_get_def alice_context_def sample_model_def)
  have second_page_rows:
    "take (nat (dict_get (Option.bind (Some second_page) limit) 10))
       (drop (nat (dict_get (Option.bind (Some second_page) offset) 0))
          [[SqlStr (name p)].
             p \<leftarrow> package_table (model alice_context), e \<leftarrow> package_extra_table (model alice_context),
             package_id e = row_id p \<and> featured e = ''true'' \<and> state p = ''active'' \<and>
             private_flag p = dict_get (Option.bind (Some second_page) include_private) False])
       = [[SqlStr ''wards'']]"
    by (simp add: dict_get_def alice_context_def sample_model_def second_page_def)
  from featured_datasets_listed [OF allowed defaults] first_page_rows
  have "fst (list_featured_datasets sample_host alice_context None may_list)
          = Inr [[SqlStr ''rivers''], [SqlStr ''wards'']]"
    by simp
  moreover from featured_datasets_listed [OF allowed given] second_page_rows
  have "fst (list_featured_datasets sample_host alice_context (Some second_page) may_list)
          = Inr [[SqlStr ''wards'']]"
    by simp
  ultimately show ?thesis using allowed by simp
qed

text \<open>
  The claim as first stated is about every authorised call. The handler hands \<open>limit\<close>
  and \<open>offset\<close> to the query as they come, and the database rejects a negative one: the
  authorised call below, with \<open>limit\<close> \<open>-1\<close>, raises instead of returning rows.
\<close>

theorem negative_limit_is_rejected:
  "check_access sample_host ''emc_authorize_list_featured_datasets'' alice_context (Some negative_page)
     may_list = (Inr (), may_list)
   \<and> limit negative_page = Some (- 1)
   \<and> fst (list_featured_datasets sample_host alice_context (Some negative_page) may_list)
     = Inl DatabaseError"
proof -
  have "check_access sample_host ''emc_authorize_list_featured_datasets'' alice_context
          (Some negative_page) may_list = (Inr (), may_list)"
    by (simp add: sample_host_def may_list_def sample_start_def)
  moreover have "limit negative_page = Some (- 1)"
    by (simp add: negative_page_def)
  moreover have "fst (list_featured_datasets sample_host alice_context (Some negative_page) may_list)
                   = Inl DatabaseError"
    by (simp add: list_featured_datasets_def run_defs execute_def dict_get_def negative_page_def
          sample_host_def may_list_def sample_start_def Let_def)
  ultimately show ?thesis by simp
qed

end
